theory Spec2Isabelle
  imports Main "HOL-Library.Sublist" "HOL-Library.Word"
begin

section \<open>Go strings, as far as the approve plugin uses them\<close>

text \<open>
  A Go string is modelled as a \<^typ>\<open>string\<close>, one \<^typ>\<open>char\<close> per byte of its UTF-8
  encoding. \<open>ToUpper\<close> and \<open>ToLower\<close> below are Go's case mappings on strings of ASCII bytes
  (the byte-wise path that \<open>strings.ToUpper\<close> and \<open>strings.ToLower\<close> take when no byte
  is \<open>0x80\<close> or above); on other strings Go consults the Unicode case tables, which are
  not modelled. Those tables map no code point beyond ASCII to a letter of \<open>APPROVE\<close>,
  \<open>LGTM\<close> or \<open>cancel\<close>, but they do map U+0130 to \<open>i\<close>; so a statement that compares
  a lower-cased argument with \<open>no-issue\<close> is made for ASCII arguments only (\<open>isASCII\<close>).
\<close>

definition toUpperChar :: "char \<Rightarrow> char" where
  "toUpperChar c =
     (case map_of (zip ''abcdefghijklmnopqrstuvwxyz'' ''ABCDEFGHIJKLMNOPQRSTUVWXYZ'') c of
        Some u \<Rightarrow> u
      | None \<Rightarrow> c)"

definition toLowerChar :: "char \<Rightarrow> char" where
  "toLowerChar c =
     (case map_of (zip ''ABCDEFGHIJKLMNOPQRSTUVWXYZ'' ''abcdefghijklmnopqrstuvwxyz'') c of
        Some l \<Rightarrow> l
      | None \<Rightarrow> c)"

definition ToUpper :: "string \<Rightarrow> string" where
  "ToUpper s = map toUpperChar s"

definition ToLower :: "string \<Rightarrow> string" where
  "ToLower s = map toLowerChar s"

definition isASCII :: "string \<Rightarrow> bool" where
  "isASCII s = list_all (\<lambda>c. \<not> digit7 c) s"

text \<open>
  \<open>unicode.IsSpace\<close>: the code points with the Unicode property White_Space, each by its
  UTF-8 encoding: U+0009 to U+000D, U+0020, U+0085, U+00A0, U+1680, U+2000 to U+200A,
  U+2028, U+2029, U+202F, U+205F and U+3000.
\<close>

definition whiteSpace :: "string list" where
  "whiteSpace =
     [[CHR 0x09], [CHR 0x0A], [CHR 0x0B], [CHR 0x0C], [CHR 0x0D], [CHR 0x20],
      [CHR 0xC2, CHR 0x85], [CHR 0xC2, CHR 0xA0],
      [CHR 0xE1, CHR 0x9A, CHR 0x80],
      [CHR 0xE2, CHR 0x80, CHR 0x80], [CHR 0xE2, CHR 0x80, CHR 0x81],
      [CHR 0xE2, CHR 0x80, CHR 0x82], [CHR 0xE2, CHR 0x80, CHR 0x83],
      [CHR 0xE2, CHR 0x80, CHR 0x84], [CHR 0xE2, CHR 0x80, CHR 0x85],
      [CHR 0xE2, CHR 0x80, CHR 0x86], [CHR 0xE2, CHR 0x80, CHR 0x87],
      [CHR 0xE2, CHR 0x80, CHR 0x88], [CHR 0xE2, CHR 0x80, CHR 0x89],
      [CHR 0xE2, CHR 0x80, CHR 0x8A],
      [CHR 0xE2, CHR 0x80, CHR 0xA8], [CHR 0xE2, CHR 0x80, CHR 0xA9],
      [CHR 0xE2, CHR 0x80, CHR 0xAF],
      [CHR 0xE2, CHR 0x81, CHR 0x9F],
      [CHR 0xE3, CHR 0x80, CHR 0x80]]"

text \<open>
  \<open>strings.TrimSpace(s)\<close>: white-space runes are taken off the front of \<open>s\<close> one at a
  time, then off its end. A byte that starts no well-formed encoding decodes to the
  replacement rune, which is no white space, and stops the trimming there.
\<close>

function stripLeading :: "string list \<Rightarrow> string \<Rightarrow> string" where
  "stripLeading encs s =
     (case find (\<lambda>e. e \<noteq> [] \<and> prefix e s) encs of
        None \<Rightarrow> s
      | Some e \<Rightarrow> stripLeading encs (drop (length e) s))"
  by pat_completeness auto
termination
proof (relation "measure (\<lambda>(encs, s). length s)")
  show "wf (measure (\<lambda>(encs, s). length s))" by simp
next
  fix encs :: "string list" and s e :: string
  assume "find (\<lambda>e. e \<noteq> [] \<and> prefix e s) encs = Some e"
  then have "e \<noteq> []" and "prefix e s" by (auto simp add: find_Some_iff)
  then have "0 < length e" and "length e \<le> length s" by (simp_all add: prefix_length_le)
  then have "length s - length e < length s" by arith
  then show "((encs, drop (length e) s), (encs, s)) \<in> measure (\<lambda>(encs, s). length s)" by simp
qed

declare stripLeading.simps [simp del]

definition TrimSpace :: "string \<Rightarrow> string" where
  "TrimSpace s = rev (stripLeading (map rev whiteSpace) (rev (stripLeading whiteSpace s)))"

text \<open>\<open>strings.Contains(s, substr)\<close>: \<open>substr\<close> occurs in \<open>s\<close> as a contiguous run.\<close>

definition Contains :: "string \<Rightarrow> string \<Rightarrow> bool" where
  "Contains s substr = sublist substr s"

definition HasPrefixFold :: "string \<Rightarrow> string \<Rightarrow> bool" where
  "HasPrefixFold s p = (ToLower (take (length p) s) = ToLower p)"

section \<open>The command pattern\<close>

text \<open>
  \<^verbatim>\<open>commandRegex = regexp.MustCompile(`(?m)^/([^\s]+)[\t ]*([^\n\r]*)`)\<close>
  (the same pattern is \<^verbatim>\<open>commandReg\<close> of package main).
  In multi-line mode \<^verbatim>\<open>^\<close> stands at the start of the text and after every line feed,
  and no part of the pattern consumes a line feed, so \<^verbatim>\<open>FindAllStringSubmatch\<close>
  yields at most one match per line, at the start of the line. Every repetition is
  greedy and what follows it may be empty, so the first group is the longest run of
  characters outside \<^verbatim>\<open>\s\<close> (tab, line feed, form feed, carriage return, space), then
  tabs and spaces are skipped, and the second group runs to the next carriage return
  or the end of the line.
\<close>

definition reSpace :: "char \<Rightarrow> bool" where
  "reSpace c = (c \<in> set [CHR 0x09, CHR 0x0A, CHR 0x0C, CHR 0x0D, CHR 0x20])"

fun splitLines :: "string \<Rightarrow> string list" where
  "splitLines [] = [[]]"
| "splitLines (c # cs) =
     (if c = CHR 0x0A then [] # splitLines cs
      else (case splitLines cs of
              [] \<Rightarrow> [[c]]
            | l # ls \<Rightarrow> (c # l) # ls))"

definition matchLine :: "string \<Rightarrow> (string \<times> string) option" where
  "matchLine line =
     (case line of
        [] \<Rightarrow> None
      | c # rest \<Rightarrow>
          if c \<noteq> CHR ''/'' then None
          else (let name = takeWhile (\<lambda>x. \<not> reSpace x) rest;
                    after = dropWhile (\<lambda>x. \<not> reSpace x) rest
                in if name = [] then None
                   else Some (name,
                          takeWhile (\<lambda>x. x \<noteq> CHR 0x0A \<and> x \<noteq> CHR 0x0D)
                            (dropWhile (\<lambda>x. x = CHR 0x09 \<or> x = CHR 0x20) after))))"

text \<open>The pairs (\<open>match[1]\<close>, \<open>match[2]\<close>) of \<^verbatim>\<open>FindAllStringSubmatch(body, -1)\<close>, in order.\<close>

definition FindAllStringSubmatch :: "string \<Rightarrow> (string \<times> string) list" where
  "FindAllStringSubmatch body = List.map_filter matchLine (splitLines body)"

definition approveCommand :: string where "approveCommand = ''APPROVE''"
definition cancelArgument :: string where "cancelArgument = ''cancel''"
definition lgtmCommand :: string where "lgtmCommand = ''LGTM''"
definition noIssueArgument :: string where "noIssueArgument = ''no-issue''"

section \<open>Data of the hosting API (package github of prow, as far as it is used)\<close>

text \<open>
  The types and constants of \<^verbatim>\<open>k8s.io/test-infra/prow/github\<close> and
  \<^verbatim>\<open>k8s.io/test-infra/prow/labels\<close> are declared outside this repository. Each
  record holds the fields this program reads or writes. A \<^verbatim>\<open>time.Time\<close> is an
  integer instant, an \<^verbatim>\<open>error\<close> of a collaborator an opaque message.
\<close>

datatype error = Error string

type_synonym ReviewState = string

definition ReviewStateApproved :: ReviewState where "ReviewStateApproved = ''APPROVED''"
definition ReviewStateChangesRequested :: ReviewState where
  "ReviewStateChangesRequested = ''CHANGES_REQUESTED''"
definition ReviewStateDismissed :: ReviewState where "ReviewStateDismissed = ''DISMISSED''"

definition IssueActionLabeled :: string where "IssueActionLabeled = ''labeled''"

definition labels_Approved :: string where "labels_Approved = ''approved''"

record User =
  Login :: string

record Label =
  URL :: string
  Name :: string
  Color :: string

record PullRequestChange =
  SHA :: string
  Filename :: string
  Status :: string

record IssueComment =
  ic_ID :: int
  ic_Body :: string
  ic_User :: User
  ic_HTMLURL :: string
  ic_CreatedAt :: int

record ReviewComment =
  rc_ID :: int
  rc_Body :: string
  rc_User :: User
  rc_HTMLURL :: string
  rc_CreatedAt :: int

record Review =
  rv_ID :: int
  rv_User :: User
  rv_Body :: string
  rv_State :: ReviewState
  rv_HTMLURL :: string
  rv_SubmittedAt :: int

record ListedIssueEvent =
  Event :: string
  Actor :: User
  EventLabel :: Label

text \<open>
  The zero value of \<^verbatim>\<open>github.ListedIssueEvent\<close>, which \<^verbatim>\<open>var lastAdded\<close> holds
  until a matching event is seen.
\<close>

definition zeroEvent :: ListedIssueEvent where
  "zeroEvent = \<lparr>Event = [], Actor = \<lparr>Login = []\<rparr>,
                 EventLabel = \<lparr>URL = [], Name = [], Color = []\<rparr>\<rparr>"

text \<open>The mutations of \<^verbatim>\<open>githubClient\<close>, as requests with their arguments.\<close>

datatype request =
    DeleteCommentReq string string int
  | CreateCommentReq string string int string
  | AddLabelReq string string int string
  | RemoveLabelReq string string int string

text \<open>
  \<^verbatim>\<open>type githubClient interface\<close>: each read answers with an error or a value; each
  mutation answers with an optional error (\<^verbatim>\<open>GetPullRequest\<close> is never called by the
  plugin and is left out).
\<close>

record githubClient =
  GetPullRequestChanges :: "string \<Rightarrow> string \<Rightarrow> int \<Rightarrow> error + PullRequestChange list"
  GetIssueLabels :: "string \<Rightarrow> string \<Rightarrow> int \<Rightarrow> error + Label list"
  ListIssueComments :: "string \<Rightarrow> string \<Rightarrow> int \<Rightarrow> error + IssueComment list"
  ListReviews :: "string \<Rightarrow> string \<Rightarrow> int \<Rightarrow> error + Review list"
  ListPullRequestComments :: "string \<Rightarrow> string \<Rightarrow> int \<Rightarrow> error + ReviewComment list"
  BotName :: "error + string"
  ListIssueEvents :: "string \<Rightarrow> string \<Rightarrow> int \<Rightarrow> error + ListedIssueEvent list"
  DeleteComment :: "string \<Rightarrow> string \<Rightarrow> int \<Rightarrow> error option"
  CreateComment :: "string \<Rightarrow> string \<Rightarrow> int \<Rightarrow> string \<Rightarrow> error option"
  AddLabel :: "string \<Rightarrow> string \<Rightarrow> int \<Rightarrow> string \<Rightarrow> error option"
  RemoveLabel :: "string \<Rightarrow> string \<Rightarrow> int \<Rightarrow> string \<Rightarrow> error option"

section \<open>Package plugins: the policy of one repository\<close>

record Approve =
  Repos :: "string list"
  IssueRequired :: bool
  DeprecatedImplicitSelfApprove :: "bool option"
  RequireSelfApproval :: "bool option"
  LgtmActsAsApprove :: bool
  DeprecatedReviewActsAsApprove :: "bool option"
  IgnoreReviewState :: "bool option"

text \<open>
  A \<^verbatim>\<open>*bool\<close> is a \<^typ>\<open>bool option\<close>, \<^verbatim>\<open>nil\<close> being \<^const>\<open>None\<close>. The deprecation
  warning \<^verbatim>\<open>warnDeprecated\<close> only writes to the log and is left out.
\<close>

definition HasSelfApproval :: "Approve \<Rightarrow> bool" where
  "HasSelfApproval a =
     (case DeprecatedImplicitSelfApprove a of
        Some b \<Rightarrow> b
      | None \<Rightarrow> (case RequireSelfApproval a of Some r \<Rightarrow> \<not> r | None \<Rightarrow> True))"

definition ConsiderReviewState :: "Approve \<Rightarrow> bool" where
  "ConsiderReviewState a =
     (case DeprecatedReviewActsAsApprove a of
        Some b \<Rightarrow> b
      | None \<Rightarrow> (case IgnoreReviewState a of Some i \<Rightarrow> \<not> i | None \<Rightarrow> True))"

section \<open>Package approve: the state of one evaluation\<close>

record state =
  org :: string
  repo :: string
  branch :: string
  number :: int
  body :: string
  author :: string
  assignees :: "User list"
  htmlURL :: string

definition NewState ::
  "string \<Rightarrow> string \<Rightarrow> string \<Rightarrow> string \<Rightarrow> string \<Rightarrow> string \<Rightarrow> int \<Rightarrow> User list \<Rightarrow> state" where
  "NewState og rp br bd au ul n as =
     \<lparr>org = og, repo = rp, branch = br, number = n, body = bd, author = au,
      assignees = as, htmlURL = ul\<rparr>"

record comment =
  Body :: string
  Author :: string
  CreatedAt :: int
  HTMLURL :: string
  ID :: int
  ReviewState :: ReviewState

definition commentFromIssueComment :: "IssueComment \<Rightarrow> comment" where
  "commentFromIssueComment ic =
     \<lparr>Body = ic_Body ic, Author = Login (ic_User ic), CreatedAt = ic_CreatedAt ic,
      HTMLURL = ic_HTMLURL ic, ID = ic_ID ic, ReviewState = []\<rparr>"

definition commentsFromIssueComments :: "IssueComment list \<Rightarrow> comment list" where
  "commentsFromIssueComments ics = map commentFromIssueComment ics"

definition commentFromReviewComment :: "ReviewComment \<Rightarrow> comment" where
  "commentFromReviewComment rc =
     \<lparr>Body = rc_Body rc, Author = Login (rc_User rc), CreatedAt = rc_CreatedAt rc,
      HTMLURL = rc_HTMLURL rc, ID = rc_ID rc, ReviewState = []\<rparr>"

definition commentsFromReviewComments :: "ReviewComment list \<Rightarrow> comment list" where
  "commentsFromReviewComments rcs = map commentFromReviewComment rcs"

definition commentFromReview :: "Review \<Rightarrow> comment" where
  "commentFromReview review =
     \<lparr>Body = rv_Body review, Author = Login (rv_User review),
      CreatedAt = rv_SubmittedAt review, HTMLURL = rv_HTMLURL review, ID = rv_ID review,
      ReviewState = rv_State review\<rparr>"

definition commentsFromReviews :: "Review list \<Rightarrow> comment list" where
  "commentsFromReviews reviews = map commentFromReview reviews"

definition filterComments :: "comment list \<Rightarrow> (comment \<Rightarrow> bool) \<Rightarrow> comment list" where
  "filterComments comments flt = filter flt comments"

definition getLast :: "comment list \<Rightarrow> comment option" where
  "getLast cs = (if cs = [] then None else Some (last cs))"

definition deprecatedBotNames :: "string list" where
  "deprecatedBotNames = [''k8s-merge-robot'', ''openshift-merge-robot'']"

definition isDeprecatedBot :: "string \<Rightarrow> bool" where
  "isDeprecatedBot login = list_ex (\<lambda>deprecated. deprecated = login) deprecatedBotNames"


section \<open>The approvers handler, as this program drives it\<close>

text \<open>
  Package \<^verbatim>\<open>approve/approvers\<close> is not among the sources. Its \<^verbatim>\<open>Approvers\<close> object
  is modelled by what package approve does to it: the arguments of its constructors,
  the public fields that are assigned, and the sequence of method calls it receives,
  in order. What the object answers (\<^verbatim>\<open>IsApproved\<close>, \<^verbatim>\<open>GetMessage\<close>) is a
  parameter of the evaluation, a function of this history.
\<close>

text \<open>
  Modelled from the spec: the ownership-resolution capability \<^verbatim>\<open>approvers.Repo\<close>, which
  yields for a file path the approver identities of the nearest directory that declares
  any, if one does.
\<close>

type_synonym Repo = "string \<Rightarrow> string list option"

record Owners =
  filenames :: "string list"
  ownersRepo :: Repo
  ownersNumber :: int

datatype approversCall =
    AddApproverCall string string bool
  | AddLGTMerCall string string bool
  | AddAuthorSelfApproverCall string string bool
  | RemoveApproverCall string
  | AddAssigneesCall string

record Approvers =
  owners :: Owners
  AssociatedIssue :: int
  RequireIssue :: bool
  ManuallyApproved :: bool
  calls :: "approversCall list"

definition NewOwners :: "string list \<Rightarrow> Repo \<Rightarrow> int \<Rightarrow> Owners" where
  "NewOwners fs r n = \<lparr>filenames = fs, ownersRepo = r, ownersNumber = n\<rparr>"

definition NewApprovers :: "Owners \<Rightarrow> Approvers" where
  "NewApprovers ow =
     \<lparr>owners = ow, AssociatedIssue = 0, RequireIssue = False, ManuallyApproved = False,
      calls = []\<rparr>"

definition AddApprover :: "Approvers \<Rightarrow> string \<Rightarrow> string \<Rightarrow> bool \<Rightarrow> Approvers" where
  "AddApprover ap login reference noIssue =
     ap\<lparr>calls := calls ap @ [AddApproverCall login reference noIssue]\<rparr>"

definition AddLGTMer :: "Approvers \<Rightarrow> string \<Rightarrow> string \<Rightarrow> bool \<Rightarrow> Approvers" where
  "AddLGTMer ap login reference noIssue =
     ap\<lparr>calls := calls ap @ [AddLGTMerCall login reference noIssue]\<rparr>"

definition AddAuthorSelfApprover :: "Approvers \<Rightarrow> string \<Rightarrow> string \<Rightarrow> bool \<Rightarrow> Approvers" where
  "AddAuthorSelfApprover ap login reference noIssue =
     ap\<lparr>calls := calls ap @ [AddAuthorSelfApproverCall login reference noIssue]\<rparr>"

definition RemoveApprover :: "Approvers \<Rightarrow> string \<Rightarrow> Approvers" where
  "RemoveApprover ap login = ap\<lparr>calls := calls ap @ [RemoveApproverCall login]\<rparr>"

definition AddAssignees :: "Approvers \<Rightarrow> string \<Rightarrow> Approvers" where
  "AddAssignees ap login = ap\<lparr>calls := calls ap @ [AddAssigneesCall login]\<rparr>"

text \<open>
  What the evaluation takes from outside package approve: the two observers of the
  handler, the marker \<^verbatim>\<open>approvers.ApprovalNotificationName\<close>, the package variable
  \<^verbatim>\<open>commandLink\<close>, and the result of \<^verbatim>\<open>findAssociatedIssue\<close> (a regular expression
  built from the organisation name, matched on the pull request's body; 0 when nothing
  matches or on an error, which is only logged).
\<close>

record externals =
  GetMessage :: "Approvers \<Rightarrow> string \<Rightarrow> string \<Rightarrow> string \<Rightarrow> string \<Rightarrow> string \<Rightarrow> string option"
  IsApproved :: "Approvers \<Rightarrow> bool"
  ApprovalNotificationName :: string
  commandLink :: string
  findAssociatedIssue :: "string \<Rightarrow> string \<Rightarrow> int"

definition GetBotCommandLink :: "externals \<Rightarrow> string \<Rightarrow> string" where
  "GetBotCommandLink ext ul = commandLink ext"

section \<open>Human override: who added the approved label\<close>

definition lastAddedEvent :: "ListedIssueEvent list \<Rightarrow> ListedIssueEvent" where
  "lastAddedEvent events =
     foldl (\<lambda>lastAdded event.
              if Event event \<noteq> IssueActionLabeled \<or> Name (EventLabel event) \<noteq> labels_Approved
              then lastAdded else event)
       zeroEvent events"

text \<open>
  \<^verbatim>\<open>findOut\<close>: its value, and how many times it called \<^verbatim>\<open>ListIssueEvents\<close>.
\<close>

definition findOut ::
  "githubClient \<Rightarrow> string \<Rightarrow> string \<Rightarrow> int \<Rightarrow> string \<Rightarrow> bool \<Rightarrow> bool \<times> nat" where
  "findOut ghc og rp n botName hasLabel =
     (if \<not> hasLabel then (False, 0)
      else (case ListIssueEvents ghc og rp n of
              Inl err \<Rightarrow> (False, 1)
            | Inr events \<Rightarrow>
                (let lastAdded = lastAddedEvent events
                 in if Login (Actor lastAdded) = [] \<or> Login (Actor lastAdded) = botName
                       \<or> isDeprecatedBot (Login (Actor lastAdded))
                    then (False, 1) else (True, 1))))"

text \<open>
  The closure \<^verbatim>\<open>humanAddedApproved\<close> returns, as a step on its captured
  \<^verbatim>\<open>cache *bool\<close>: the value, the cache afterwards, and the number of history lookups the
  call made.
\<close>

definition humanAddedApproved ::
  "githubClient \<Rightarrow> string \<Rightarrow> string \<Rightarrow> int \<Rightarrow> string \<Rightarrow> bool \<Rightarrow> bool option
     \<Rightarrow> bool \<times> bool option \<times> nat" where
  "humanAddedApproved ghc og rp n botName hasLabel cache =
     (case cache of
        None \<Rightarrow> (let (val, k) = findOut ghc og rp n botName hasLabel in (val, Some val, k))
      | Some val \<Rightarrow> (val, Some val, 0))"

text \<open>
  Calling the closure \<open>k\<close> times in a row, starting from the given cache: the values
  returned and the total of history lookups.
\<close>

fun callRepeatedly ::
  "nat \<Rightarrow> (bool option \<Rightarrow> bool \<times> bool option \<times> nat) \<Rightarrow> bool option \<Rightarrow> bool list \<times> nat" where
  "callRepeatedly 0 f cache = ([], 0)"
| "callRepeatedly (Suc k) f cache =
     (case f cache of
        (val, cache', n) \<Rightarrow>
          (case callRepeatedly k f cache' of (vals, m) \<Rightarrow> (val # vals, n + m)))"

section \<open>Which comments count\<close>

definition isApprovalCommand :: "string \<Rightarrow> bool \<Rightarrow> comment \<Rightarrow> bool" where
  "isApprovalCommand botName lgtmActsAsApprove c =
     (if Author c = botName \<or> isDeprecatedBot (Author c) then False
      else list_ex (\<lambda>(m1, m2). (ToUpper m1 = lgtmCommand \<and> lgtmActsAsApprove)
                                 \<or> ToUpper m1 = approveCommand)
             (FindAllStringSubmatch (Body c)))"

definition isApprovalState :: "string \<Rightarrow> bool \<Rightarrow> comment \<Rightarrow> bool" where
  "isApprovalState botName reviewActsAsApprove c =
     (if Author c = botName \<or> isDeprecatedBot (Author c) then False
      else (let reviewState = ToUpper (ReviewState c)
            in reviewActsAsApprove \<and> (reviewState = ReviewStateApproved
                 \<or> reviewState = ReviewStateChangesRequested
                 \<or> reviewState = ReviewStateDismissed)))"

definition approvalMatcher :: "string \<Rightarrow> bool \<Rightarrow> bool \<Rightarrow> comment \<Rightarrow> bool" where
  "approvalMatcher botName lgtmActsAsApprove reviewActsAsApprove c =
     (isApprovalCommand botName lgtmActsAsApprove c
      \<or> isApprovalState botName reviewActsAsApprove c)"

text \<open>
  \<^verbatim>\<open>notificationRegex\<close> is \<^verbatim>\<open>(?is)^\[NAME\] *?([^\n]*)(?:\n\n(.*))?\<close> with the marker
  \<^verbatim>\<open>approvers.ApprovalNotificationName\<close> for \<^verbatim>\<open>NAME\<close>: everything after the bracketed
  marker may be empty, so a body matches exactly when it starts with the bracketed
  marker, letter case ignored (the marker is a word of letters, free of the pattern
  language's operators).
\<close>

definition notificationMatcher :: "externals \<Rightarrow> string \<Rightarrow> comment \<Rightarrow> bool" where
  "notificationMatcher ext botName c =
     (if Author c \<noteq> botName \<and> \<not> isDeprecatedBot (Author c) then False
      else HasPrefixFold (Body c) (''['' @ ApprovalNotificationName ext @ '']''))"

section \<open>Folding the comments into the handler\<close>

text \<open>The body of the inner loop of \<^verbatim>\<open>addApprovers\<close>, for one match of the command pattern.\<close>

definition addApproversMatch ::
  "comment \<Rightarrow> string \<Rightarrow> Approvers \<Rightarrow> string \<times> string \<Rightarrow> Approvers" where
  "addApproversMatch c prAuthor ap m =
     (let name = ToUpper (fst m)
      in if name \<noteq> approveCommand \<and> name \<noteq> lgtmCommand then ap
         else (let args = ToLower (TrimSpace (snd m))
               in if Contains args cancelArgument then RemoveApprover ap (Author c)
                  else (let ap1 = (if Author c = prAuthor
                                   then AddAuthorSelfApprover ap (Author c) (HTMLURL c)
                                          (args = noIssueArgument)
                                   else ap)
                        in if name = approveCommand
                           then AddApprover ap1 (Author c) (HTMLURL c) (args = noIssueArgument)
                           else AddLGTMer ap1 (Author c) (HTMLURL c) (args = noIssueArgument))))"

text \<open>The body of the outer loop, for one comment.\<close>

definition addApproversComment :: "string \<Rightarrow> bool \<Rightarrow> Approvers \<Rightarrow> comment \<Rightarrow> Approvers" where
  "addApproversComment prAuthor reviewActsAsApprove ap c =
     (if Author c = [] then ap
      else (let ap1 = (if reviewActsAsApprove \<and> ReviewState c = ReviewStateApproved
                       then AddApprover ap (Author c) (HTMLURL c) False else ap);
                ap2 = (if reviewActsAsApprove \<and> ReviewState c = ReviewStateChangesRequested
                       then RemoveApprover ap1 (Author c) else ap1)
            in foldl (addApproversMatch c prAuthor) ap2 (FindAllStringSubmatch (Body c))))"

definition addApprovers :: "Approvers \<Rightarrow> comment list \<Rightarrow> string \<Rightarrow> bool \<Rightarrow> Approvers" where
  "addApprovers approversHandler approveComments prAuthor reviewActsAsApprove =
     foldl (addApproversComment prAuthor reviewActsAsApprove) approversHandler approveComments"


section \<open>The evaluation: \<^verbatim>\<open>handle\<close>\<close>

text \<open>
  \<^verbatim>\<open>fetchErr\<close> builds \<^verbatim>\<open>"failed to get %s for %s/%s#%d: %v"\<close>; the error value keeps the
  five arguments of the format apart: the operation, organisation, repository, number
  and the cause.
\<close>

datatype handleError = FailedToGet string string string int error

definition fetchErr :: "state \<Rightarrow> string \<Rightarrow> error \<Rightarrow> handleError" where
  "fetchErr pr ctx err = FailedToGet ctx (org pr) (repo pr) (number pr) err"

text \<open>
  What one run of \<^verbatim>\<open>handle\<close> leaves behind: the error it returns (\<^verbatim>\<open>nil\<close> is
  \<^const>\<open>None\<close>), the mutations it issued in order, and the failures of mutations that it
  wrote to the log.
\<close>

record outcome =
  returned :: "handleError option"
  requests :: "request list"
  logged :: "(request \<times> error) list"

definition failed :: "handleError \<Rightarrow> outcome" where
  "failed e = \<lparr>returned = Some e, requests = [], logged = []\<rparr>"

definition send :: "githubClient \<Rightarrow> request \<Rightarrow> error option" where
  "send ghc rq =
     (case rq of
        DeleteCommentReq og rp i \<Rightarrow> DeleteComment ghc og rp i
      | CreateCommentReq og rp n m \<Rightarrow> CreateComment ghc og rp n m
      | AddLabelReq og rp n l \<Rightarrow> AddLabel ghc og rp n l
      | RemoveLabelReq og rp n l \<Rightarrow> RemoveLabel ghc og rp n l)"

definition failures :: "githubClient \<Rightarrow> request list \<Rightarrow> (request \<times> error) list" where
  "failures ghc rqs = List.map_filter (\<lambda>rq. map_option (Pair rq) (send ghc rq)) rqs"

definition hasLabelApproved :: "Label list \<Rightarrow> bool" where
  "hasLabelApproved issueLabels = list_ex (\<lambda>label. Name label = labels_Approved) issueLabels"

text \<open>
  Lines 189 to 196: the three sources as one list, sorted stably by creation time, and
  filtered by \<^verbatim>\<open>approvalMatcher\<close>.
\<close>

definition approveCommentsOf ::
  "string \<Rightarrow> Approve \<Rightarrow> IssueComment list \<Rightarrow> ReviewComment list \<Rightarrow> Review list \<Rightarrow> comment list" where
  "approveCommentsOf botName opts issueComments reviewComments reviews =
     (let comments = (commentsFromReviewComments reviewComments
                        @ commentsFromIssueComments issueComments)
                     @ commentsFromReviews reviews;
          comments = sort_key CreatedAt comments
      in filterComments comments
           (approvalMatcher botName (LgtmActsAsApprove opts) (ConsiderReviewState opts)))"

text \<open>
  Lines 164 to 202: the handler as \<^verbatim>\<open>handle\<close> has driven it when the notification is
  rendered. \<^verbatim>\<open>ManuallyApproved\<close> holds the value that every call of the closure
  returns.
\<close>

definition configure ::
  "externals \<Rightarrow> githubClient \<Rightarrow> Repo \<Rightarrow> Approve \<Rightarrow> state \<Rightarrow> string list \<Rightarrow> bool \<Rightarrow> string
     \<Rightarrow> comment list \<Rightarrow> Approvers" where
  "configure ext ghc rp opts pr fs hasApprovedLabel botName approveComments =
     (let approversHandler = NewApprovers (NewOwners fs rp (number pr));
          approversHandler = approversHandler
            \<lparr>AssociatedIssue := findAssociatedIssue ext (body pr) (org pr),
             RequireIssue := IssueRequired opts,
             ManuallyApproved :=
               fst (findOut ghc (org pr) (repo pr) (number pr) botName hasApprovedLabel)\<rparr>;
          approversHandler =
            (if HasSelfApproval opts
             then AddAuthorSelfApprover approversHandler (author pr) (htmlURL pr @ ''#'') False
             else AddAssignees approversHandler (author pr));
          approversHandler =
            addApprovers approversHandler approveComments (author pr) (ConsiderReviewState opts)
      in foldl (\<lambda>h user. AddAssignees h (Login user)) approversHandler (assignees pr))"

definition updateNotification ::
  "externals \<Rightarrow> string \<Rightarrow> string \<Rightarrow> string \<Rightarrow> string \<Rightarrow> string \<Rightarrow> comment option \<Rightarrow> Approvers
     \<Rightarrow> string option" where
  "updateNotification ext linkURL og rp br commandURL latestNotification approversHandler =
     (case GetMessage ext approversHandler linkURL og rp br commandURL of
        None \<Rightarrow> None
      | Some message \<Rightarrow>
          (case latestNotification of
             None \<Rightarrow> Some message
           | Some latest \<Rightarrow> if Contains (Body latest) message then None else Some message))"

text \<open>Lines 211 to 220: delete every earlier notification, then post the new one.\<close>

definition commentRequests :: "state \<Rightarrow> comment list \<Rightarrow> string option \<Rightarrow> request list" where
  "commentRequests pr notifications newMessage =
     (case newMessage of
        None \<Rightarrow> []
      | Some message \<Rightarrow>
          map (\<lambda>notif. DeleteCommentReq (org pr) (repo pr) (ID notif)) notifications
          @ [CreateCommentReq (org pr) (repo pr) (number pr) message])"

text \<open>Lines 224 to 234: the label follows the verdict.\<close>

definition labelRequests :: "state \<Rightarrow> bool \<Rightarrow> bool \<Rightarrow> request list" where
  "labelRequests pr approved hasApprovedLabel =
     (if \<not> approved
      then (if hasApprovedLabel
            then [RemoveLabelReq (org pr) (repo pr) (number pr) labels_Approved] else [])
      else if \<not> hasApprovedLabel
           then [AddLabelReq (org pr) (repo pr) (number pr) labels_Approved]
           else [])"

text \<open>Lines 162 to 236: what \<^verbatim>\<open>handle\<close> does once all six reads have succeeded.\<close>

definition decide ::
  "externals \<Rightarrow> githubClient \<Rightarrow> Repo \<Rightarrow> string \<Rightarrow> Approve \<Rightarrow> state \<Rightarrow> PullRequestChange list
     \<Rightarrow> Label list \<Rightarrow> string \<Rightarrow> IssueComment list \<Rightarrow> ReviewComment list \<Rightarrow> Review list
     \<Rightarrow> outcome" where
  "decide ext ghc rp linkURL opts pr changes issueLabels botName issueComments reviewComments
       reviews =
     (let fs = map Filename changes;
          hasApprovedLabel = hasLabelApproved issueLabels;
          approveComments = approveCommentsOf botName opts issueComments reviewComments reviews;
          approversHandler =
            configure ext ghc rp opts pr fs hasApprovedLabel botName approveComments;
          notifications = filterComments (commentsFromIssueComments issueComments)
                            (notificationMatcher ext botName);
          latestNotification = getLast notifications;
          commandURL = GetBotCommandLink ext (htmlURL pr);
          newMessage = updateNotification ext linkURL (org pr) (repo pr) (branch pr) commandURL
                         latestNotification approversHandler;
          rqs = commentRequests pr notifications newMessage
                @ labelRequests pr (IsApproved ext approversHandler) hasApprovedLabel
      in \<lparr>returned = None, requests = rqs, logged = failures ghc rqs\<rparr>)"

definition handle ::
  "externals \<Rightarrow> githubClient \<Rightarrow> Repo \<Rightarrow> string \<Rightarrow> Approve \<Rightarrow> state \<Rightarrow> outcome" where
  "handle ext ghc rp linkURL opts pr =
     (case GetPullRequestChanges ghc (org pr) (repo pr) (number pr) of
        Inl err \<Rightarrow> failed (fetchErr pr ''PR file changes'' err)
      | Inr changes \<Rightarrow>
     (case GetIssueLabels ghc (org pr) (repo pr) (number pr) of
        Inl err \<Rightarrow> failed (fetchErr pr ''issue labels'' err)
      | Inr issueLabels \<Rightarrow>
     (case BotName ghc of
        Inl err \<Rightarrow> failed (fetchErr pr ''bot name'' err)
      | Inr botName \<Rightarrow>
     (case ListIssueComments ghc (org pr) (repo pr) (number pr) of
        Inl err \<Rightarrow> failed (fetchErr pr ''issue comments'' err)
      | Inr issueComments \<Rightarrow>
     (case ListPullRequestComments ghc (org pr) (repo pr) (number pr) of
        Inl err \<Rightarrow> failed (fetchErr pr ''review comments'' err)
      | Inr reviewComments \<Rightarrow>
     (case ListReviews ghc (org pr) (repo pr) (number pr) of
        Inl err \<Rightarrow> failed (fetchErr pr ''reviews'' err)
      | Inr reviews \<Rightarrow>
          decide ext ghc rp linkURL opts pr changes issueLabels botName issueComments
            reviewComments reviews))))))"


section \<open>Package main: the Gitee robot around the evaluation\<close>

text \<open>
  The types of the Gitee SDK and of the robot framework are declared outside this
  repository; each record holds the fields that are read here. An \<^verbatim>\<open>int32\<close> is a
  \<^typ>\<open>32 word\<close>, read as a signed number by \<^const>\<open>sint\<close>. A getter of the SDK on a
  \<^verbatim>\<open>nil\<close> pointer answers the zero value.
\<close>

type_synonym int32 = "32 word"

record UserBasic =
  ub_Login :: string

record PullRequestFiles =
  pf_Sha :: string
  pf_Filename :: string
  pf_Status :: string

record sdkLabel =
  sl_Url :: string
  sl_Name :: string
  sl_Color :: string

record PullRequestComments =
  pc_Id :: int32
  pc_Body :: string
  pc_User :: "UserBasic option"
  pc_HtmlUrl :: string
  pc_CreatedAt :: string

record PullRequestHook =
  hook_BaseRef :: string
  hook_Assignees :: "UserBasic list"
  hook_Body :: string
  hook_User :: "UserBasic option"
  hook_HtmlUrl :: string
  hook_Number :: int

record NoteEvent =
  IsCreatingCommentEvent :: bool
  IsPullRequest :: bool
  OrgRepo :: "string \<times> string"
  Commenter :: string
  CommentBody :: string
  NotePullRequest :: PullRequestHook

record botConfig =
  cfg_RequireSelfApproval :: bool
  cfg_ignoreReviewState :: bool

text \<open>
  A configuration of the framework: this robot's own (with its lookup \<^verbatim>\<open>configFor\<close>),
  or one of another type, on which the type assertion in \<^verbatim>\<open>getConfig\<close> fails.
\<close>

datatype config = Configuration "string \<Rightarrow> string \<Rightarrow> botConfig option" | OtherConfig

record iClient =
  cli_GetPullRequestChanges :: "string \<Rightarrow> string \<Rightarrow> int32 \<Rightarrow> error + PullRequestFiles list"
  cli_GetPRLabels :: "string \<Rightarrow> string \<Rightarrow> int32 \<Rightarrow> error + sdkLabel list"
  cli_ListPRComments :: "string \<Rightarrow> string \<Rightarrow> int32 \<Rightarrow> error + PullRequestComments list"
  cli_DeletePRComment :: "string \<Rightarrow> string \<Rightarrow> int32 \<Rightarrow> error option"
  cli_CreatePRComment :: "string \<Rightarrow> string \<Rightarrow> int32 \<Rightarrow> string \<Rightarrow> error option"
  cli_GetBot :: "error + UserBasic"
  cli_AddPRLabel :: "string \<Rightarrow> string \<Rightarrow> int32 \<Rightarrow> string \<Rightarrow> error option"
  cli_RemovePRLabel :: "string \<Rightarrow> string \<Rightarrow> int32 \<Rightarrow> string \<Rightarrow> error option"

definition GetLogin :: "UserBasic option \<Rightarrow> string" where
  "GetLogin user = (case user of None \<Rightarrow> [] | Some u \<Rightarrow> ub_Login u)"

definition transformPRChanges :: "PullRequestFiles list \<Rightarrow> PullRequestChange list" where
  "transformPRChanges changes =
     map (\<lambda>v. \<lparr>SHA = pf_Sha v, Filename = pf_Filename v, Status = pf_Status v\<rparr>) changes"

definition transformLabels :: "sdkLabel list \<Rightarrow> Label list" where
  "transformLabels ls = map (\<lambda>v. \<lparr>URL = sl_Url v, Name = sl_Name v, Color = sl_Color v\<rparr>) ls"

definition transformUser :: "UserBasic option \<Rightarrow> User" where
  "transformUser user = \<lparr>Login = GetLogin user\<rparr>"

text \<open>
  \<^verbatim>\<open>parseTime\<close> reads an RFC 3339 instant with \<^verbatim>\<open>time.Parse\<close> of the standard library
  (the zero time when the text does not parse); it is a parameter here.
\<close>

definition transformComments ::
  "(string \<Rightarrow> int) \<Rightarrow> PullRequestComments list \<Rightarrow> IssueComment list" where
  "transformComments parseTime comments =
     map (\<lambda>v. \<lparr>ic_ID = sint (pc_Id v), ic_Body = pc_Body v, ic_User = transformUser (pc_User v),
                ic_HTMLURL = pc_HtmlUrl v, ic_CreatedAt = parseTime (pc_CreatedAt v)\<rparr>)
       comments"

definition transformConfig :: "string \<Rightarrow> botConfig \<Rightarrow> Approve" where
  "transformConfig og cfg =
     \<lparr>Repos = [og], IssueRequired = False, DeprecatedImplicitSelfApprove = None,
      RequireSelfApproval = Some (cfg_RequireSelfApproval cfg), LgtmActsAsApprove = False,
      DeprecatedReviewActsAsApprove = None,
      IgnoreReviewState = Some (cfg_ignoreReviewState cfg)\<rparr>"

text \<open>
  \<^verbatim>\<open>type ghclient struct\<close>: the adapter from the Gitee client to \<^verbatim>\<open>githubClient\<close>.
  Its \<^verbatim>\<open>ListIssueEvents\<close>, \<^verbatim>\<open>ListReviews\<close> and \<^verbatim>\<open>ListPullRequestComments\<close> answer
  with an empty list and no error.
\<close>

definition ghclient :: "(string \<Rightarrow> int) \<Rightarrow> iClient \<Rightarrow> githubClient" where
  "ghclient parseTime cli =
     \<lparr>GetPullRequestChanges = (\<lambda>og rp n.
        case cli_GetPullRequestChanges cli og rp (word_of_int n) of
          Inl err \<Rightarrow> Inl err | Inr cs \<Rightarrow> Inr (transformPRChanges cs)),
      GetIssueLabels = (\<lambda>og rp n.
        case cli_GetPRLabels cli og rp (word_of_int n) of
          Inl err \<Rightarrow> Inl err | Inr ls \<Rightarrow> Inr (transformLabels ls)),
      ListIssueComments = (\<lambda>og rp n.
        case cli_ListPRComments cli og rp (word_of_int n) of
          Inl err \<Rightarrow> Inl err | Inr comments \<Rightarrow> Inr (transformComments parseTime comments)),
      ListReviews = (\<lambda>og rp n. Inr []),
      ListPullRequestComments = (\<lambda>og rp n. Inr []),
      BotName = (case cli_GetBot cli of Inl err \<Rightarrow> Inl err | Inr u \<Rightarrow> Inr (ub_Login u)),
      ListIssueEvents = (\<lambda>og rp n. Inr []),
      DeleteComment = (\<lambda>og rp i. cli_DeletePRComment cli og rp (word_of_int i)),
      CreateComment = (\<lambda>og rp n c. cli_CreatePRComment cli og rp (word_of_int n) c),
      AddLabel = (\<lambda>og rp n l. cli_AddPRLabel cli og rp (word_of_int n) l),
      RemoveLabel = (\<lambda>og rp n l. cli_RemovePRLabel cli og rp (word_of_int n) l)\<rparr>"

text \<open>
  \<^verbatim>\<open>type robot struct\<close>: its client, its configured name, and the owners cache, which
  answers \<^verbatim>\<open>loadRepoOwners\<close> for an organisation, repository and branch.
\<close>

record robot =
  cli :: githubClient
  robotBotName :: string
  loadRepoOwners :: "string \<Rightarrow> string \<Rightarrow> string \<Rightarrow> error + Repo"

text \<open>
  What an event handler of the robot did: it returned without evaluating (with \<^verbatim>\<open>nil\<close>
  or with an error), or it ran \<^verbatim>\<open>approve.Handle\<close> on a state and a policy.
\<close>

datatype handled =
    NotEvaluated "error option"
  | Evaluated state Approve outcome

definition getConfig :: "config \<Rightarrow> string \<Rightarrow> string \<Rightarrow> error + botConfig" where
  "getConfig cfg og rp =
     (case cfg of
        OtherConfig \<Rightarrow> Inl (Error ''can't convert to configuration'')
      | Configuration configFor \<Rightarrow>
          (case configFor og rp of
             Some bc \<Rightarrow> Inr bc
           | None \<Rightarrow> Inl (Error (''no config for this repo:'' @ og @ ''/'' @ rp))))"

definition isApproveCommand :: "string \<Rightarrow> bool \<Rightarrow> bool" where
  "isApproveCommand cmt lgtmActsAsApprove =
     list_ex (\<lambda>(m1, m2). ToUpper m1 = approveCommand
                \<or> (ToUpper m1 = lgtmCommand \<and> lgtmActsAsApprove))
       (FindAllStringSubmatch cmt)"

definition getGiteeOption :: string where
  "getGiteeOption = ''https://gitee.com''"

text \<open>
  Lines 43 to 61 of \<^verbatim>\<open>robot.handle\<close>: the state handed to the evaluation. The variable
  \<^verbatim>\<open>assignees\<close> declared by \<^verbatim>\<open>var\<close> is \<^verbatim>\<open>nil\<close>; inside the \<^verbatim>\<open>if\<close> block
  \<^verbatim>\<open>assignees := make(...)\<close> declares a second variable of the same name, which is
  filled and then goes out of scope (\<open>inner\<close> below). \<^verbatim>\<open>NewState\<close> receives the
  outer one.
\<close>

definition prState :: "string \<Rightarrow> string \<Rightarrow> PullRequestHook \<Rightarrow> state" where
  "prState og rp pr =
     (let targetBranch = hook_BaseRef pr;
          assignees = [];
          as = hook_Assignees pr;
          inner = (if length as > 0 then map (\<lambda>a. \<lparr>Login = ub_Login a\<rparr>) as else [])
      in NewState og rp targetBranch (hook_Body pr) (GetLogin (hook_User pr))
           (hook_HtmlUrl pr) (hook_Number pr) assignees)"

definition robot_handle ::
  "externals \<Rightarrow> robot \<Rightarrow> string \<Rightarrow> string \<Rightarrow> PullRequestHook \<Rightarrow> botConfig \<Rightarrow> handled" where
  "robot_handle ext rbt og rp pr cfg =
     (case loadRepoOwners rbt og rp (hook_BaseRef pr) of
        Inl err \<Rightarrow> NotEvaluated (Some err)
      | Inr oc \<Rightarrow>
          (let st = prState og rp pr;
               c = transformConfig og cfg
           in Evaluated st c (handle ext (cli rbt) oc getGiteeOption c st)))"

definition handleNoteEvent :: "externals \<Rightarrow> robot \<Rightarrow> NoteEvent \<Rightarrow> config \<Rightarrow> handled" where
  "handleNoteEvent ext rbt e c =
     (if \<not> IsCreatingCommentEvent e \<or> \<not> IsPullRequest e then NotEvaluated None
      else (case getConfig c (fst (OrgRepo e)) (snd (OrgRepo e)) of
              Inl err \<Rightarrow> NotEvaluated (Some err)
            | Inr cfg \<Rightarrow>
                if robotBotName rbt = Commenter e \<or> \<not> isApproveCommand (CommentBody e) False
                then NotEvaluated None
                else robot_handle ext rbt (fst (OrgRepo e)) (snd (OrgRepo e))
                       (NotePullRequest e) cfg))"


section \<open>What the handler's calls mean\<close>

text \<open>
  Modelled from the spec: the methods \<^verbatim>\<open>AddApprover\<close>, \<^verbatim>\<open>AddLGTMer\<close>,
  \<^verbatim>\<open>AddAuthorSelfApprover\<close>, \<^verbatim>\<open>RemoveApprover\<close> and \<^verbatim>\<open>AddAssignees\<close> of the
  missing package \<^verbatim>\<open>approve/approvers\<close>. The spec's approver state holds a set of
  approver identities with their provenance, the identities added by an LGTM among
  them, and a separate set of assignees that are suggested approvers only. Adding
  records the identity with the provenance of the call, removing drops the identity
  whichever call added it, and an assignee never enters the approver set.
\<close>

datatype provenance = ByApprove | ByLGTM | BySelfApproval

record Approval =
  approver :: string
  how :: provenance
  reference :: string
  noIssue :: bool

fun enact :: "Approval list \<Rightarrow> approversCall \<Rightarrow> Approval list" where
  "enact as (AddApproverCall l r n) =
     filter (\<lambda>a. approver a \<noteq> l) as
     @ [\<lparr>approver = l, how = ByApprove, reference = r, noIssue = n\<rparr>]"
| "enact as (AddLGTMerCall l r n) =
     filter (\<lambda>a. approver a \<noteq> l) as
     @ [\<lparr>approver = l, how = ByLGTM, reference = r, noIssue = n\<rparr>]"
| "enact as (AddAuthorSelfApproverCall l r n) =
     filter (\<lambda>a. approver a \<noteq> l) as
     @ [\<lparr>approver = l, how = BySelfApproval, reference = r, noIssue = n\<rparr>]"
| "enact as (RemoveApproverCall l) = filter (\<lambda>a. approver a \<noteq> l) as"
| "enact as (AddAssigneesCall l) = as"

definition approvals :: "Approvers \<Rightarrow> Approval list" where
  "approvals ap = foldl enact [] (calls ap)"

definition approverSet :: "Approvers \<Rightarrow> string set" where
  "approverSet ap = set (map approver (approvals ap))"

text \<open>
  Modelled from the spec: the method \<^verbatim>\<open>IsApproved\<close> of the missing package, as far as
  the human override goes: when the override flag is set the coverage computation is
  skipped and the verdict is approved; otherwise the verdict is what the coverage
  computation (a parameter here) says.
\<close>

definition IsApprovedBySpec :: "(Approvers \<Rightarrow> bool) \<Rightarrow> Approvers \<Rightarrow> bool" where
  "IsApprovedBySpec coverage ap = (if ManuallyApproved ap then True else coverage ap)"

section \<open>The spec's reading of the comment stream\<close>

text \<open>
  The spec's words for the approver state machine: an approval-relevant action of an
  author either adds the author (an approve or lgtm command without a cancel argument,
  or an approved review when the review state is considered) or cancels (either
  command with a cancel argument, or a changes-requested review). Within one comment
  the review state comes first and the commands follow in the order of their lines.
\<close>

datatype intent = Adds | Cancels

definition commandIntent :: "string \<times> string \<Rightarrow> intent option" where
  "commandIntent m =
     (if ToUpper (fst m) = approveCommand \<or> ToUpper (fst m) = lgtmCommand
      then (if Contains (ToLower (TrimSpace (snd m))) cancelArgument
            then Some Cancels else Some Adds)
      else None)"

definition reviewIntent :: "bool \<Rightarrow> ReviewState \<Rightarrow> intent list" where
  "reviewIntent considered st =
     (if considered \<and> st = ReviewStateApproved then [Adds]
      else if considered \<and> st = ReviewStateChangesRequested then [Cancels]
      else [])"

definition relevantActions :: "bool \<Rightarrow> comment \<Rightarrow> intent list" where
  "relevantActions considered c =
     reviewIntent considered (ReviewState c)
     @ List.map_filter commandIntent (FindAllStringSubmatch (Body c))"

definition actionsOf :: "bool \<Rightarrow> comment list \<Rightarrow> string \<Rightarrow> intent list" where
  "actionsOf considered cs a =
     concat (map (relevantActions considered) (filter (\<lambda>c. Author c = a) cs))"

definition lastRelevantAction :: "bool \<Rightarrow> comment list \<Rightarrow> string \<Rightarrow> intent option" where
  "lastRelevantAction considered cs a =
     (if actionsOf considered cs a = [] then None else Some (last (actionsOf considered cs a)))"

text \<open>
  Whether an identity is among the approvers after a run of actions, given whether it
  was before: the last action decides.
\<close>

definition standing :: "intent list \<Rightarrow> bool \<Rightarrow> bool" where
  "standing xs before = (if xs = [] then before else last xs = Adds)"

definition hasCommand :: "string \<Rightarrow> string \<Rightarrow> bool" where
  "hasCommand name cmt = list_ex (\<lambda>m. ToUpper (fst m) = name) (FindAllStringSubmatch cmt)"

section \<open>The hosting service, for running the evaluation twice\<close>

text \<open>
  The code-hosting service behind \<^verbatim>\<open>iClient\<close> is not part of the program. For
  running the evaluation twice on one pull request it is taken to do what the spec
  says of its operations: the reads answer with the current files, labels, comments
  and bot identity; deleting a comment by id removes it, creating a comment appends
  one written by the bot, adding a label by name appends it, and removing a label by
  name removes it. The id, link and time the service gives a new comment are its own
  choice (a \<open>stamp\<close>).
\<close>

record hosted =
  files :: "PullRequestFiles list"
  prLabels :: "sdkLabel list"
  prComments :: "PullRequestComments list"
  botUser :: UserBasic

record stamp =
  newId :: int32
  newHtmlUrl :: string
  newCreatedAt :: string

definition gitee :: "hosted \<Rightarrow> iClient" where
  "gitee w =
     \<lparr>cli_GetPullRequestChanges = (\<lambda>og rp n. Inr (files w)),
      cli_GetPRLabels = (\<lambda>og rp n. Inr (prLabels w)),
      cli_ListPRComments = (\<lambda>og rp n. Inr (prComments w)),
      cli_DeletePRComment = (\<lambda>og rp i. None),
      cli_CreatePRComment = (\<lambda>og rp n c. None),
      cli_GetBot = Inr (botUser w),
      cli_AddPRLabel = (\<lambda>og rp n l. None),
      cli_RemovePRLabel = (\<lambda>og rp n l. None)\<rparr>"

fun effect :: "stamp \<Rightarrow> hosted \<Rightarrow> request \<Rightarrow> hosted" where
  "effect s w (DeleteCommentReq og rp i) =
     w\<lparr>prComments := filter (\<lambda>c. pc_Id c \<noteq> word_of_int i) (prComments w)\<rparr>"
| "effect s w (CreateCommentReq og rp n m) =
     w\<lparr>prComments := prComments w
          @ [\<lparr>pc_Id = newId s, pc_Body = m, pc_User = Some (botUser w),
              pc_HtmlUrl = newHtmlUrl s, pc_CreatedAt = newCreatedAt s\<rparr>]\<rparr>"
| "effect s w (AddLabelReq og rp n l) =
     w\<lparr>prLabels := prLabels w @ [\<lparr>sl_Url = [], sl_Name = l, sl_Color = []\<rparr>]\<rparr>"
| "effect s w (RemoveLabelReq og rp n l) =
     w\<lparr>prLabels := filter (\<lambda>x. sl_Name x \<noteq> l) (prLabels w)\<rparr>"

text \<open>One evaluation of the pull request as the service holds it, and the service afterwards.\<close>

definition evaluation ::
  "externals \<Rightarrow> (string \<Rightarrow> int) \<Rightarrow> Repo \<Rightarrow> string \<Rightarrow> Approve \<Rightarrow> state \<Rightarrow> hosted \<Rightarrow> outcome" where
  "evaluation ext parseTime rp linkURL opts pr w =
     handle ext (ghclient parseTime (gitee w)) rp linkURL opts pr"

definition afterwards ::
  "externals \<Rightarrow> (string \<Rightarrow> int) \<Rightarrow> Repo \<Rightarrow> string \<Rightarrow> Approve \<Rightarrow> state \<Rightarrow> stamp \<Rightarrow> hosted \<Rightarrow> hosted" where
  "afterwards ext parseTime rp linkURL opts pr s w =
     foldl (effect s) w (requests (evaluation ext parseTime rp linkURL opts pr w))"

text \<open>The comment that the evaluation makes of a comment the service holds.\<close>

definition seen :: "(string \<Rightarrow> int) \<Rightarrow> PullRequestComments \<Rightarrow> comment" where
  "seen parseTime v =
     \<lparr>Body = pc_Body v, Author = GetLogin (pc_User v), CreatedAt = parseTime (pc_CreatedAt v),
      HTMLURL = pc_HtmlUrl v, ID = sint (pc_Id v), ReviewState = []\<rparr>"

text \<open>
  The spec's format of the status comment: every rendered message begins with the
  marker token in brackets.
\<close>

definition rendersMarked :: "externals \<Rightarrow> bool" where
  "rendersMarked ext =
     (\<forall>ap linkURL og rp br commandURL message.
        GetMessage ext ap linkURL og rp br commandURL = Some message \<longrightarrow>
        HasPrefixFold message (''['' @ ApprovalNotificationName ext @ '']''))"

section \<open>The spec's words for reads, label mutations and the label history\<close>

text \<open>
  The required reads of an evaluation, in the order in which \<^verbatim>\<open>handle\<close> makes them,
  each with the name the error message gives it and with its error, if it failed.
\<close>

definition failure :: "error + 'a \<Rightarrow> error option" where
  "failure r = (case r of Inl err \<Rightarrow> Some err | Inr v \<Rightarrow> None)"

definition requiredReads :: "githubClient \<Rightarrow> state \<Rightarrow> (string \<times> error option) list" where
  "requiredReads ghc pr =
     [(''PR file changes'', failure (GetPullRequestChanges ghc (org pr) (repo pr) (number pr))),
      (''issue labels'', failure (GetIssueLabels ghc (org pr) (repo pr) (number pr))),
      (''bot name'', failure (BotName ghc)),
      (''issue comments'', failure (ListIssueComments ghc (org pr) (repo pr) (number pr))),
      (''review comments'', failure (ListPullRequestComments ghc (org pr) (repo pr) (number pr))),
      (''reviews'', failure (ListReviews ghc (org pr) (repo pr) (number pr)))]"

fun firstFailure :: "(string \<times> error option) list \<Rightarrow> (string \<times> error) option" where
  "firstFailure [] = None"
| "firstFailure ((ctx, None) # rs) = firstFailure rs"
| "firstFailure ((ctx, Some err) # rs) = Some (ctx, err)"

text \<open>A label mutation is an add-label or a remove-label request.\<close>

definition isLabelMutation :: "request \<Rightarrow> bool" where
  "isLabelMutation rq =
     (case rq of AddLabelReq og rp n l \<Rightarrow> True | RemoveLabelReq og rp n l \<Rightarrow> True | _ \<Rightarrow> False)"

text \<open>
  The most recent label-added event for the approved label in a history, if there is
  one.
\<close>

definition mostRecentAdd :: "ListedIssueEvent list \<Rightarrow> ListedIssueEvent option" where
  "mostRecentAdd events =
     (let adds = filter (\<lambda>e. Event e = IssueActionLabeled
                               \<and> Name (EventLabel e) = labels_Approved) events
      in if adds = [] then None else Some (last adds))"

section \<open>Worked inputs\<close>

text \<open>Concrete collaborators and pull requests on which the properties below are run.\<close>

definition exExternals :: externals where
  "exExternals =
     \<lparr>GetMessage = (\<lambda>ap linkURL og rp br commandURL. None), IsApproved = (\<lambda>ap. False),
      ApprovalNotificationName = ''ApprovalNotifier'', commandLink = [],
      findAssociatedIssue = (\<lambda>b og. 0)\<rparr>"

definition exClient :: githubClient where
  "exClient =
     \<lparr>GetPullRequestChanges = (\<lambda>og rp n. Inr []), GetIssueLabels = (\<lambda>og rp n. Inr []),
      ListIssueComments = (\<lambda>og rp n. Inr []), ListReviews = (\<lambda>og rp n. Inr []),
      ListPullRequestComments = (\<lambda>og rp n. Inr []), BotName = Inr ''ci-bot'',
      ListIssueEvents = (\<lambda>og rp n. Inr []), DeleteComment = (\<lambda>og rp i. None),
      CreateComment = (\<lambda>og rp n c. None), AddLabel = (\<lambda>og rp n l. None),
      RemoveLabel = (\<lambda>og rp n l. None)\<rparr>"

definition exPR :: state where
  "exPR = NewState ''org'' ''repo'' ''master'' ''fixes #12'' ''alice''
            ''https://gitee.com/org/repo/pulls/7'' 7 []"

definition exOpts :: "bool \<Rightarrow> Approve" where
  "exOpts required =
     transformConfig ''org''
       \<lparr>cfg_RequireSelfApproval = required, cfg_ignoreReviewState = False\<rparr>"

definition exDefaultOpts :: Approve where
  "exDefaultOpts =
     \<lparr>Repos = [''org''], IssueRequired = False, DeprecatedImplicitSelfApprove = None,
      RequireSelfApproval = None, LgtmActsAsApprove = False,
      DeprecatedReviewActsAsApprove = None, IgnoreReviewState = None\<rparr>"

definition say :: "string \<Rightarrow> string \<Rightarrow> int \<Rightarrow> comment" where
  "say who what at =
     \<lparr>Body = what, Author = who, CreatedAt = at, HTMLURL = ''#note'', ID = at,
      ReviewState = []\<rparr>"

definition reviewed :: "string \<Rightarrow> ReviewState \<Rightarrow> int \<Rightarrow> comment" where
  "reviewed who st at =
     \<lparr>Body = [], Author = who, CreatedAt = at, HTMLURL = ''#review'', ID = at,
      ReviewState = st\<rparr>"

definition exHandler :: Approvers where
  "exHandler = NewApprovers (NewOwners [] (\<lambda>f. None) 7)"

definition exHook :: PullRequestHook where
  "exHook =
     \<lparr>hook_BaseRef = ''master'', hook_Assignees = [\<lparr>ub_Login = ''carol''\<rparr>],
      hook_Body = ''fixes #12'', hook_User = Some \<lparr>ub_Login = ''alice''\<rparr>,
      hook_HtmlUrl = ''https://gitee.com/org/repo/pulls/7'', hook_Number = 7\<rparr>"

definition exRobot :: robot where
  "exRobot =
     \<lparr>cli = exClient, robotBotName = ''ci-bot'',
      loadRepoOwners = (\<lambda>og rp br. Inr (\<lambda>f. None))\<rparr>"

definition exNote :: "string \<Rightarrow> string \<Rightarrow> NoteEvent" where
  "exNote who what =
     \<lparr>IsCreatingCommentEvent = True, IsPullRequest = True, OrgRepo = (''org'', ''repo''),
      Commenter = who, CommentBody = what, NotePullRequest = exHook\<rparr>"

definition exConfig :: config where
  "exConfig =
     Configuration
       (\<lambda>og rp. Some \<lparr>cfg_RequireSelfApproval = False, cfg_ignoreReviewState = False\<rparr>)"

definition failingClient :: githubClient where
  "failingClient =
     exClient\<lparr>ListIssueComments := (\<lambda>og rp n. Inl (Error ''timeout'')),
              ListReviews := (\<lambda>og rp n. Inl (Error ''refused''))\<rparr>"

definition labelled :: "string \<Rightarrow> ListedIssueEvent" where
  "labelled who =
     \<lparr>Event = IssueActionLabeled, Actor = \<lparr>Login = who\<rparr>,
      EventLabel = \<lparr>URL = [], Name = labels_Approved, Color = []\<rparr>\<rparr>"

definition historyClient :: "ListedIssueEvent list \<Rightarrow> githubClient" where
  "historyClient events = exClient\<lparr>ListIssueEvents := (\<lambda>og rp n. Inr events)\<rparr>"

definition exRenderer :: externals where
  "exRenderer = exExternals
     \<lparr>GetMessage := (\<lambda>ap linkURL og rp br commandURL.
        Some (if list_ex (\<lambda>k. case k of AddApproverCall l r n \<Rightarrow> True | _ \<Rightarrow> False) (calls ap)
              then ''[APPROVALNOTIFIER] This PR is APPROVED''
              else ''[APPROVALNOTIFIER] This PR is NOT APPROVED'')),
      IsApproved := (\<lambda>ap. list_ex (\<lambda>k. case k of AddApproverCall l r n \<Rightarrow> True | _ \<Rightarrow> False)
                             (calls ap))\<rparr>"

definition exHosted :: hosted where
  "exHosted =
     \<lparr>files = [\<lparr>pf_Sha = ''c0ffee'', pf_Filename = ''pkg/a/x.go'', pf_Status = ''modified''\<rparr>],
      prLabels = [],
      prComments =
        [\<lparr>pc_Id = 1, pc_Body = ''[APPROVALNOTIFIER] This PR is NOT APPROVED'',
          pc_User = Some \<lparr>ub_Login = ''ci-bot''\<rparr>, pc_HtmlUrl = ''#note_1'',
          pc_CreatedAt = ''2022-01-06T10:00:00+08:00''\<rparr>,
         \<lparr>pc_Id = 2, pc_Body = ''/approve'', pc_User = Some \<lparr>ub_Login = ''bob''\<rparr>,
          pc_HtmlUrl = ''#note_2'', pc_CreatedAt = ''2022-01-06T11:00:00+08:00''\<rparr>],
      botUser = \<lparr>ub_Login = ''ci-bot''\<rparr>\<rparr>"

definition exStamp :: stamp where
  "exStamp =
     \<lparr>newId = 3, newHtmlUrl = ''#note_3'', newCreatedAt = ''2022-01-06T11:00:05+08:00''\<rparr>"

section \<open>Evaluation on concrete inputs\<close>

lemmas eval_defs = addApprovers_def addApproversComment_def addApproversMatch_def
  FindAllStringSubmatch_def matchLine_def reSpace_def List.map_filter_def
  ToUpper_def ToLower_def toUpperChar_def toLowerChar_def TrimSpace_def whiteSpace_def
  stripLeading.simps isASCII_def Contains_def sublist_code approveCommand_def lgtmCommand_def
  cancelArgument_def noIssueArgument_def
  AddApprover_def AddLGTMer_def AddAuthorSelfApprover_def RemoveApprover_def AddAssignees_def
  exHandler_def NewApprovers_def say_def reviewed_def Let_def
  ReviewStateApproved_def ReviewStateChangesRequested_def ReviewStateDismissed_def

lemmas spec_eval_defs = lastRelevantAction_def actionsOf_def relevantActions_def reviewIntent_def
  commandIntent_def

section \<open>Properties of the handler's call sequence\<close>

lemma prefix_calls_match: "prefix (calls ap) (calls (addApproversMatch c a ap m))"
  by (simp add: addApproversMatch_def Let_def AddApprover_def AddLGTMer_def
        AddAuthorSelfApprover_def RemoveApprover_def)

lemma prefix_calls_matches: "prefix (calls ap) (calls (foldl (addApproversMatch c a) ap ms))"
proof (induction ms arbitrary: ap)
  case Nil
  show ?case by simp
next
  case (Cons m ms)
  have "prefix (calls ap) (calls (addApproversMatch c a ap m))"
    by (rule prefix_calls_match)
  also have "prefix \<dots> (calls (foldl (addApproversMatch c a) (addApproversMatch c a ap m) ms))"
    by (rule Cons.IH)
  finally show ?case by simp
qed

lemma prefix_calls_comment: "prefix (calls ap) (calls (addApproversComment a rv ap c))"
proof -
  have step: "\<And>h. prefix (calls ap) (calls h) \<Longrightarrow>
      prefix (calls ap) (calls (foldl (addApproversMatch c a) h (FindAllStringSubmatch (Body c))))"
    using prefix_calls_matches prefix_order.trans by blast
  show ?thesis
    unfolding addApproversComment_def Let_def
    by (auto intro!: step simp: AddApprover_def RemoveApprover_def)
qed

lemma prefix_calls_addApprovers: "prefix (calls ap) (calls (addApprovers ap cs a rv))"
  unfolding addApprovers_def
proof (induction cs arbitrary: ap)
  case Nil
  show ?case by simp
next
  case (Cons c cs)
  have "prefix (calls ap) (calls (addApproversComment a rv ap c))"
    by (rule prefix_calls_comment)
  also have "prefix \<dots> (calls (foldl (addApproversComment a rv) (addApproversComment a rv ap c) cs))"
    by (rule Cons.IH)
  finally show ?case by simp
qed

lemma calls_assignees:
  "calls (foldl (\<lambda>h user. AddAssignees h (Login user)) ap us)
     = calls ap @ map (\<lambda>u. AddAssigneesCall (Login u)) us"
  by (induction us arbitrary: ap) (simp_all add: AddAssignees_def)

text \<open>
  C9. The policy asks for no explicit self-approval by default (neither option set).
  When it asks for none, the first call the handler receives, before any comment is
  processed, adds the pull request's author as a self-approver with the reference
  \<open>htmlURL#\<close>; when it asks for explicit self-approval, the first call records the
  author as an assignee (a suggested approver) instead. Without comments that first
  call is followed by the assignees of the pull request only.
\<close>

theorem author_at_initialisation:
  "(DeprecatedImplicitSelfApprove opts = None \<and> RequireSelfApproval opts = None
      \<longrightarrow> HasSelfApproval opts)
   \<and> prefix [if HasSelfApproval opts
              then AddAuthorSelfApproverCall (author pr) (htmlURL pr @ ''#'') False
              else AddAssigneesCall (author pr)]
        (calls (configure ext ghc rp opts pr fs hasApprovedLabel botName approveComments))
   \<and> calls (configure ext ghc rp opts pr fs hasApprovedLabel botName [])
       = (if HasSelfApproval opts
          then AddAuthorSelfApproverCall (author pr) (htmlURL pr @ ''#'') False
          else AddAssigneesCall (author pr))
         # map (\<lambda>u. AddAssigneesCall (Login u)) (assignees pr)"
proof (intro conjI)
  show "DeprecatedImplicitSelfApprove opts = None \<and> RequireSelfApproval opts = None
      \<longrightarrow> HasSelfApproval opts"
    by (simp add: HasSelfApproval_def)
next
  let ?first = "if HasSelfApproval opts
              then AddAuthorSelfApproverCall (author pr) (htmlURL pr @ ''#'') False
              else AddAssigneesCall (author pr)"
  define h0 where "h0 = (NewApprovers (NewOwners fs rp (number pr)))
            \<lparr>AssociatedIssue := findAssociatedIssue ext (body pr) (org pr),
             RequireIssue := IssueRequired opts,
             ManuallyApproved :=
               fst (findOut ghc (org pr) (repo pr) (number pr) botName hasApprovedLabel)\<rparr>"
  define h1 where "h1 = (if HasSelfApproval opts
             then AddAuthorSelfApprover h0 (author pr) (htmlURL pr @ ''#'') False
             else AddAssignees h0 (author pr))"
  have c1: "calls h1 = [?first]"
    by (simp add: h1_def h0_def NewApprovers_def AddAuthorSelfApprover_def AddAssignees_def)
  have cfg: "\<And>cs. configure ext ghc rp opts pr fs hasApprovedLabel botName cs
      = foldl (\<lambda>h user. AddAssignees h (Login user))
          (addApprovers h1 cs (author pr) (ConsiderReviewState opts)) (assignees pr)"
    by (simp add: configure_def Let_def h1_def h0_def)
  have "prefix (calls h1) (calls (addApprovers h1 approveComments (author pr) (ConsiderReviewState opts)))"
    by (rule prefix_calls_addApprovers)
  then have "prefix [?first]
      (calls (addApprovers h1 approveComments (author pr) (ConsiderReviewState opts))
       @ map (\<lambda>u. AddAssigneesCall (Login u)) (assignees pr))"
    unfolding c1 by (rule prefix_prefix)
  then show "prefix [?first]
        (calls (configure ext ghc rp opts pr fs hasApprovedLabel botName approveComments))"
    unfolding cfg calls_assignees .
  show "calls (configure ext ghc rp opts pr fs hasApprovedLabel botName [])
       = ?first # map (\<lambda>u. AddAssigneesCall (Login u)) (assignees pr)"
    unfolding cfg calls_assignees by (simp add: addApprovers_def c1)
qed

theorem author_at_initialisation_witness:
  "HasSelfApproval exDefaultOpts
   \<and> calls (configure exExternals exClient (\<lambda>f. None) exDefaultOpts exPR [] False ''ci-bot'' [])
       = [AddAuthorSelfApproverCall ''alice'' ''https://gitee.com/org/repo/pulls/7#'' False]
   \<and> calls (configure exExternals exClient (\<lambda>f. None) (exOpts True) exPR [] False ''ci-bot'' [])
       = [AddAssigneesCall ''alice'']"
proof -
  have unset: "DeprecatedImplicitSelfApprove exDefaultOpts = None
      \<and> RequireSelfApproval exDefaultOpts = None"
    by (simp add: exDefaultOpts_def)
  have "HasSelfApproval exDefaultOpts"
    using unset
      author_at_initialisation [where opts = exDefaultOpts and pr = exPR and ext = exExternals
        and ghc = exClient and rp = "\<lambda>f. None" and fs = "[]" and hasApprovedLabel = False
        and botName = "''ci-bot''" and approveComments = "[]"]
    by blast
  then show ?thesis
    using author_at_initialisation [where opts = exDefaultOpts and pr = exPR
        and ext = exExternals and ghc = exClient and rp = "\<lambda>f. None" and fs = "[]"
        and hasApprovedLabel = False and botName = "''ci-bot''" and approveComments = "[]"]
      author_at_initialisation [where opts = "exOpts True" and pr = exPR and ext = exExternals
        and ghc = exClient and rp = "\<lambda>f. None" and fs = "[]" and hasApprovedLabel = False
        and botName = "''ci-bot''" and approveComments = "[]"]
    by (simp add: exOpts_def transformConfig_def HasSelfApproval_def exPR_def NewState_def)
qed

section \<open>Command arguments\<close>

text \<open>
  C7, as the code has it, for an approve or lgtm command whose argument, once trimmed, is
  made of ASCII bytes. The argument is trimmed of white space (Unicode white space
  included) and lower-cased. The token \<open>cancel\<close> is looked for as a substring of it, and
  then the author is removed. The token \<open>no-issue\<close> is compared with the whole of it: the
  approval waives the issue exactly when nothing but \<open>no-issue\<close> is left.
\<close>

theorem command_arguments:
  assumes "ToUpper (fst m) = approveCommand \<or> ToUpper (fst m) = lgtmCommand"
    and "isASCII (TrimSpace (snd m))"
  shows "calls (addApproversMatch c prAuthor ap m)
           = calls ap
             @ (if sublist ''cancel'' (ToLower (TrimSpace (snd m)))
                then [RemoveApproverCall (Author c)]
                else (if Author c = prAuthor
                      then [AddAuthorSelfApproverCall (Author c) (HTMLURL c)
                              (ToLower (TrimSpace (snd m)) = ''no-issue'')]
                      else [])
                     @ [(if ToUpper (fst m) = approveCommand then AddApproverCall
                         else AddLGTMerCall)
                          (Author c) (HTMLURL c) (ToLower (TrimSpace (snd m)) = ''no-issue'')])"
  using assms(1)
  by (auto simp add: addApproversMatch_def Let_def Contains_def cancelArgument_def
        noIssueArgument_def AddApprover_def AddLGTMer_def AddAuthorSelfApprover_def
        RemoveApprover_def)

theorem command_arguments_witness:
  "calls (addApproversMatch (say ''bob'' ''/approve No-Issue'' 1) ''alice'' exHandler
            (''approve'', ''No-Issue''))
     = [AddApproverCall ''bob'' ''#note'' True]
   \<and> calls (addApproversMatch (say ''bob'' ''/lgtm please CANCEL it'' 1) ''alice'' exHandler
            (''lgtm'', ''please CANCEL it''))
     = [RemoveApproverCall ''bob'']
   \<and> calls (addApproversMatch
              (say ''bob'' (''/approve no-issue'' @ [CHR 0xC2, CHR 0xA0]) 1) ''alice'' exHandler
              (''approve'', ''no-issue'' @ [CHR 0xC2, CHR 0xA0]))
     = [AddApproverCall ''bob'' ''#note'' True]"
  using command_arguments [where m = "(''approve'', ''No-Issue'')"
          and c = "say ''bob'' ''/approve No-Issue'' 1" and prAuthor = "''alice''"
          and ap = exHandler]
    command_arguments [where m = "(''lgtm'', ''please CANCEL it'')"
          and c = "say ''bob'' ''/lgtm please CANCEL it'' 1" and prAuthor = "''alice''"
          and ap = exHandler]
    command_arguments [where m = "(''approve'', ''no-issue'' @ [CHR 0xC2, CHR 0xA0])"
          and c = "say ''bob'' (''/approve no-issue'' @ [CHR 0xC2, CHR 0xA0]) 1"
          and prAuthor = "''alice''" and ap = exHandler]
  by (simp add: ToUpper_def ToLower_def toUpperChar_def toLowerChar_def TrimSpace_def
        whiteSpace_def stripLeading.simps isASCII_def approveCommand_def lgtmCommand_def
        sublist_code say_def exHandler_def NewApprovers_def)

text \<open>
  C7 as stated fails: the argument \<open>no-issue extra\<close> contains the token but is not
  equal to it, and the approval is recorded without the waiver.
\<close>

theorem no_issue_extra_counterexample:
  "calls (addApprovers exHandler [say ''bob'' ''/approve no-issue extra'' 1] ''alice'' True)
     = [AddApproverCall ''bob'' ''#note'' False]
   \<and> calls (addApprovers exHandler [say ''bob'' ''/approve no-issue'' 1] ''alice'' True)
     = [AddApproverCall ''bob'' ''#note'' True]"
  by (simp add: eval_defs)

section \<open>The entry check of note events\<close>

text \<open>
  C10. A note event whose comment carries no approve command (an lgtm command alone,
  for one) never reaches the evaluation, whatever the configuration holds: the check
  asks \<^verbatim>\<open>isApproveCommand\<close> with lgtm-as-approve off, and the translated policy has
  neither \<^verbatim>\<open>LgtmActsAsApprove\<close> nor \<^verbatim>\<open>IssueRequired\<close> set.
\<close>

theorem note_without_approve_not_evaluated:
  assumes "\<not> hasCommand approveCommand (CommentBody e)"
  shows "(\<exists>r. handleNoteEvent ext rbt e c = NotEvaluated r)
         \<and> LgtmActsAsApprove (transformConfig og cfg) = False
         \<and> IssueRequired (transformConfig og cfg) = False"
proof -
  have "\<not> isApproveCommand (CommentBody e) False"
    using assms by (auto simp add: isApproveCommand_def hasCommand_def list_ex_iff)
  then show ?thesis
    by (simp add: handleNoteEvent_def transformConfig_def split: sum.split)
qed

theorem note_without_approve_not_evaluated_witness:
  "hasCommand lgtmCommand ''/lgtm''
   \<and> handleNoteEvent exExternals exRobot (exNote ''bob'' ''/lgtm'') exConfig = NotEvaluated None"
proof -
  have h: "\<not> hasCommand approveCommand (CommentBody (exNote ''bob'' ''/lgtm''))"
    by (simp add: hasCommand_def exNote_def eval_defs)
  have l: "hasCommand lgtmCommand ''/lgtm''"
    by (simp add: hasCommand_def eval_defs)
  from note_without_approve_not_evaluated [OF h, of exExternals exRobot exConfig "''org''"
      "\<lparr>cfg_RequireSelfApproval = False, cfg_ignoreReviewState = False\<rparr>"]
  obtain r where
    r: "handleNoteEvent exExternals exRobot (exNote ''bob'' ''/lgtm'') exConfig = NotEvaluated r"
    by blast
  have "handleNoteEvent exExternals exRobot (exNote ''bob'' ''/lgtm'') exConfig = NotEvaluated None"
    by (simp add: handleNoteEvent_def exNote_def exConfig_def getConfig_def exRobot_def
          isApproveCommand_def eval_defs)
  with l show ?thesis by simp
qed

section \<open>Assignees of the pull request\<close>

text \<open>
  C8, on a pull request event with the assignee \<open>carol\<close>: the state that
  \<^verbatim>\<open>robot.handle\<close> builds has no assignees, and the handler never receives
  \<^verbatim>\<open>AddAssignees\<close> for her.
\<close>

theorem assignees_dropped:
  "assignees (prState ''org'' ''repo'' exHook) = []
   \<and> calls (configure exExternals exClient (\<lambda>f. None) (exOpts False)
              (prState ''org'' ''repo'' exHook) [] False ''ci-bot'' [])
       = [AddAuthorSelfApproverCall ''alice'' ''https://gitee.com/org/repo/pulls/7#'' False]"
  by (simp add: prState_def exHook_def NewState_def configure_def exOpts_def transformConfig_def
        HasSelfApproval_def GetLogin_def eval_defs)

section \<open>Review states\<close>

text \<open>
  C2, as the code has it. With the review state considered, a review without commands
  in its body and with an author: state approved adds the author, state
  changes-requested removes the author, and state dismissed leaves the handler as it
  was, although \<^verbatim>\<open>approvalMatcher\<close> lets such a review through (unless the bot or a
  retired bot wrote it).
\<close>

theorem review_states:
  assumes "Author c \<noteq> []" and "FindAllStringSubmatch (Body c) = []"
  shows "(ReviewState c = ReviewStateApproved \<longrightarrow>
            addApproversComment prAuthor True ap c = AddApprover ap (Author c) (HTMLURL c) False)
       \<and> (ReviewState c = ReviewStateChangesRequested \<longrightarrow>
            addApproversComment prAuthor True ap c = RemoveApprover ap (Author c))
       \<and> (ReviewState c = ReviewStateDismissed \<longrightarrow>
            addApproversComment prAuthor True ap c = ap
            \<and> approvalMatcher botName lgtmActsAsApprove True c
                = (Author c \<noteq> botName \<and> \<not> isDeprecatedBot (Author c)))"
  using assms
  by (simp add: addApproversComment_def Let_def ReviewStateApproved_def
        ReviewStateChangesRequested_def ReviewStateDismissed_def approvalMatcher_def
        isApprovalState_def isApprovalCommand_def ToUpper_def toUpperChar_def)


theorem review_states_witness:
  "addApproversComment ''alice'' True exHandler (reviewed ''bob'' ReviewStateDismissed 2) = exHandler
   \<and> approvalMatcher ''ci-bot'' False True (reviewed ''bob'' ReviewStateDismissed 2)
   \<and> calls (addApproversComment ''alice'' True exHandler (reviewed ''bob'' ReviewStateApproved 1))
       = [AddApproverCall ''bob'' ''#review'' False]
   \<and> calls (addApproversComment ''alice'' True exHandler
              (reviewed ''bob'' ReviewStateChangesRequested 3))
       = [RemoveApproverCall ''bob'']"
proof -
  have a: "\<And>st n. Author (reviewed ''bob'' st n) \<noteq> []"
    and b: "\<And>st n. FindAllStringSubmatch (Body (reviewed ''bob'' st n)) = []"
    by (simp_all add: reviewed_def FindAllStringSubmatch_def matchLine_def List.map_filter_def)
  show ?thesis
    using review_states [OF a [of ReviewStateDismissed 2] b [of ReviewStateDismissed 2],
          where prAuthor = "''alice''" and ap = exHandler and botName = "''ci-bot''"
          and lgtmActsAsApprove = False]
      review_states [OF a [of ReviewStateApproved 1] b [of ReviewStateApproved 1],
          where prAuthor = "''alice''" and ap = exHandler and botName = "''ci-bot''"
          and lgtmActsAsApprove = False]
      review_states [OF a [of ReviewStateChangesRequested 3]
          b [of ReviewStateChangesRequested 3],
          where prAuthor = "''alice''" and ap = exHandler and botName = "''ci-bot''"
          and lgtmActsAsApprove = False]
    by (simp add: reviewed_def isDeprecatedBot_def deprecatedBotNames_def AddApprover_def
          RemoveApprover_def exHandler_def NewApprovers_def)
qed

text \<open>
  C2 as stated fails: after an approved review a dismissed review of the same author
  passes the filter and causes no call at all; the author stays an approver.
\<close>

theorem dismissed_review_keeps_approver:
  "approvalMatcher ''ci-bot'' False True (reviewed ''bob'' ReviewStateDismissed 2)
   \<and> calls (addApprovers exHandler
              [reviewed ''bob'' ReviewStateApproved 1, reviewed ''bob'' ReviewStateDismissed 2]
              ''alice'' True)
       = [AddApproverCall ''bob'' ''#review'' False]
   \<and> ''bob'' \<in> approverSet (addApprovers exHandler
              [reviewed ''bob'' ReviewStateApproved 1, reviewed ''bob'' ReviewStateDismissed 2]
              ''alice'' True)"
  by (simp add: approvalMatcher_def isApprovalState_def isApprovalCommand_def isDeprecatedBot_def
        deprecatedBotNames_def approverSet_def approvals_def eval_defs)

section \<open>The last action of an author wins\<close>

lemma standing_append: "standing (xs @ ys) before = standing ys (standing xs before)"
  by (simp add: standing_def)

lemma approvals_snoc: "approvals (ap\<lparr>calls := calls ap @ [k]\<rparr>) = enact (approvals ap) k"
  by (simp add: approvals_def)

lemma member_enact:
  "(a \<in> set (map approver (enact as k)))
     = (case k of
          AddApproverCall l r n \<Rightarrow> a = l \<or> a \<in> set (map approver as)
        | AddLGTMerCall l r n \<Rightarrow> a = l \<or> a \<in> set (map approver as)
        | AddAuthorSelfApproverCall l r n \<Rightarrow> a = l \<or> a \<in> set (map approver as)
        | RemoveApproverCall l \<Rightarrow> a \<noteq> l \<and> a \<in> set (map approver as)
        | AddAssigneesCall l \<Rightarrow> a \<in> set (map approver as))"
  by (cases k) auto

lemma member_AddApprover:
  "(a \<in> approverSet (AddApprover ap l r n)) = (a = l \<or> a \<in> approverSet ap)"
  by (simp add: approverSet_def AddApprover_def approvals_snoc member_enact del: enact.simps set_map)

lemma member_AddLGTMer:
  "(a \<in> approverSet (AddLGTMer ap l r n)) = (a = l \<or> a \<in> approverSet ap)"
  by (simp add: approverSet_def AddLGTMer_def approvals_snoc member_enact del: enact.simps set_map)

lemma member_AddAuthorSelfApprover:
  "(a \<in> approverSet (AddAuthorSelfApprover ap l r n)) = (a = l \<or> a \<in> approverSet ap)"
  by (simp add: approverSet_def AddAuthorSelfApprover_def approvals_snoc member_enact
        del: enact.simps set_map)

lemma member_RemoveApprover:
  "(a \<in> approverSet (RemoveApprover ap l)) = (a \<noteq> l \<and> a \<in> approverSet ap)"
  by (simp add: approverSet_def RemoveApprover_def approvals_snoc member_enact
        del: enact.simps set_map)

lemmas member_calls = member_AddApprover member_AddLGTMer member_AddAuthorSelfApprover
  member_RemoveApprover

lemma member_match:
  "(a \<in> approverSet (addApproversMatch c p ap m))
     = (if Author c = a
        then standing (case commandIntent m of None \<Rightarrow> [] | Some i \<Rightarrow> [i]) (a \<in> approverSet ap)
        else a \<in> approverSet ap)"
  by (auto simp add: addApproversMatch_def commandIntent_def standing_def Let_def member_calls)

lemma member_matches:
  "(a \<in> approverSet (foldl (addApproversMatch c p) ap ms))
     = (if Author c = a
        then standing (List.map_filter commandIntent ms) (a \<in> approverSet ap)
        else a \<in> approverSet ap)"
proof (induction ms arbitrary: ap)
  case Nil
  show ?case by (simp add: standing_def List.map_filter_simps)
next
  case (Cons m ms)
  have split: "List.map_filter commandIntent (m # ms)
      = (case commandIntent m of None \<Rightarrow> [] | Some i \<Rightarrow> [i]) @ List.map_filter commandIntent ms"
    by (simp add: List.map_filter_simps split: option.split)
  show ?case
    unfolding split standing_append
    using Cons.IH [of "addApproversMatch c p ap m"] by (simp add: member_match)
qed

lemma member_comment:
  assumes "a \<noteq> []"
  shows "(a \<in> approverSet (addApproversComment p considered ap c))
     = (if Author c = a then standing (relevantActions considered c) (a \<in> approverSet ap)
        else a \<in> approverSet ap)"
proof (cases "Author c = a")
  case False
  then show ?thesis
    by (simp add: addApproversComment_def Let_def member_matches member_calls)
next
  case True
  with assms have ne: "Author c \<noteq> []" by simp
  have apart: "ReviewStateApproved \<noteq> ReviewStateChangesRequested"
    by (simp add: ReviewStateApproved_def ReviewStateChangesRequested_def)
  show ?thesis
    using True ne apart
    by (simp add: addApproversComment_def Let_def member_matches member_calls relevantActions_def
          reviewIntent_def standing_append) (simp add: standing_def)
qed

lemma member_stream:
  assumes "a \<noteq> []"
  shows "(a \<in> approverSet (foldl (addApproversComment p considered) ap cs))
     = standing (actionsOf considered cs a) (a \<in> approverSet ap)"
proof (induction cs arbitrary: ap)
  case Nil
  show ?case by (simp add: actionsOf_def standing_def)
next
  case (Cons c cs)
  have split: "actionsOf considered (c # cs) a
      = (if Author c = a then relevantActions considered c else []) @ actionsOf considered cs a"
    by (simp add: actionsOf_def)
  show ?case
    unfolding split standing_append
    using Cons.IH [of "addApproversComment p considered ap c"]
    by (simp add: member_comment [OF assms]) (simp add: standing_def)
qed

lemma member_AddAssignees: "(a \<in> approverSet (AddAssignees ap l)) = (a \<in> approverSet ap)"
  by (simp add: approverSet_def AddAssignees_def approvals_snoc member_enact
        del: enact.simps set_map)

lemma member_assignees:
  "(a \<in> approverSet (foldl (\<lambda>h user. AddAssignees h (Login user)) ap us))
     = (a \<in> approverSet ap)"
  by (induction us arbitrary: ap) (simp_all add: member_AddAssignees)

lemma chronological:
  "sorted (map CreatedAt (approveCommentsOf botName opts issueComments reviewComments reviews))"
  by (simp add: approveCommentsOf_def Let_def filterComments_def sorted_filter)

text \<open>
  C1. For an author (a login that is not empty: a comment without one is skipped) and
  any ordered stream of comments, the author is an approver after \<^verbatim>\<open>addApprovers\<close>
  exactly when the last relevant action of the author adds, is not one when it cancels,
  and stands as before when the author took no action. For the handler of an
  evaluation, an author without any action is an approver exactly when the author
  wrote the pull request and the policy lets authors approve implicitly. The stream
  that \<^verbatim>\<open>handle\<close> passes is in the order of creation. The approver set is read from
  the handler's calls as the spec describes them; review states are those of the
  review API.
\<close>

theorem last_action_wins:
  assumes "a \<noteq> []"
  shows "(a \<in> approverSet (addApprovers ap cs prAuthor considered))
           = (case lastRelevantAction considered cs a of
                None \<Rightarrow> a \<in> approverSet ap
              | Some Adds \<Rightarrow> True
              | Some Cancels \<Rightarrow> False)
       \<and> (a \<in> approverSet (configure ext ghc rp opts pr fs hasLabel botName cs))
           = (case lastRelevantAction (ConsiderReviewState opts) cs a of
                None \<Rightarrow> HasSelfApproval opts \<and> a = author pr
              | Some Adds \<Rightarrow> True
              | Some Cancels \<Rightarrow> False)
       \<and> sorted (map CreatedAt
                  (approveCommentsOf botName opts issueComments reviewComments reviews))"
proof (intro conjI)
  show "(a \<in> approverSet (addApprovers ap cs prAuthor considered))
           = (case lastRelevantAction considered cs a of
                None \<Rightarrow> a \<in> approverSet ap
              | Some Adds \<Rightarrow> True
              | Some Cancels \<Rightarrow> False)"
    unfolding addApprovers_def member_stream [OF assms]
    by (simp add: standing_def lastRelevantAction_def split: intent.split)
  have start: "approverSet ((NewApprovers (NewOwners fs rp (number pr)))
        \<lparr>AssociatedIssue := findAssociatedIssue ext (body pr) (org pr),
         RequireIssue := IssueRequired opts,
         ManuallyApproved :=
           fst (findOut ghc (org pr) (repo pr) (number pr) botName hasLabel)\<rparr>) = {}"
    by (simp add: approverSet_def approvals_def NewApprovers_def)
  show "(a \<in> approverSet (configure ext ghc rp opts pr fs hasLabel botName cs))
           = (case lastRelevantAction (ConsiderReviewState opts) cs a of
                None \<Rightarrow> HasSelfApproval opts \<and> a = author pr
              | Some Adds \<Rightarrow> True
              | Some Cancels \<Rightarrow> False)"
    unfolding configure_def Let_def member_assignees addApprovers_def member_stream [OF assms]
    by (auto simp add: standing_def lastRelevantAction_def member_AddAssignees
          member_AddAuthorSelfApprover start split: intent.split)
  show "sorted (map CreatedAt
                  (approveCommentsOf botName opts issueComments reviewComments reviews))"
    by (rule chronological)
qed

theorem last_action_wins_witness:
  "''bob'' \<notin> approverSet (addApprovers exHandler
       [say ''bob'' ''/approve'' 1, say ''bob'' ''/approve cancel'' 2] ''alice'' True)
   \<and> ''bob'' \<in> approverSet (addApprovers exHandler
       [say ''bob'' ''/approve'' 1, say ''bob'' ''/approve cancel'' 2, say ''bob'' ''/approve'' 3]
       ''alice'' True)"
proof -
  have bob: "''bob'' \<noteq> []" by simp
  show ?thesis
    using last_action_wins [OF bob, where ap = exHandler
          and cs = "[say ''bob'' ''/approve'' 1, say ''bob'' ''/approve cancel'' 2]"
          and prAuthor = "''alice''" and considered = True]
      last_action_wins [OF bob, where ap = exHandler
          and cs = "[say ''bob'' ''/approve'' 1, say ''bob'' ''/approve cancel'' 2,
                     say ''bob'' ''/approve'' 3]"
          and prAuthor = "''alice''" and considered = True]
    by (simp add: spec_eval_defs eval_defs)
qed

section \<open>Errors of the evaluation\<close>

lemma returned_decide:
  "returned (decide ext ghc rp linkURL opts pr changes issueLabels botName issueComments
      reviewComments reviews) = None"
  by (simp add: decide_def Let_def)

lemma handle_reads:
  assumes "GetPullRequestChanges ghc (org pr) (repo pr) (number pr) = Inr changes"
    and "GetIssueLabels ghc (org pr) (repo pr) (number pr) = Inr issueLabels"
    and "BotName ghc = Inr botName"
    and "ListIssueComments ghc (org pr) (repo pr) (number pr) = Inr issueComments"
    and "ListPullRequestComments ghc (org pr) (repo pr) (number pr) = Inr reviewComments"
    and "ListReviews ghc (org pr) (repo pr) (number pr) = Inr reviews"
  shows "handle ext ghc rp linkURL opts pr
           = decide ext ghc rp linkURL opts pr changes issueLabels botName issueComments
               reviewComments reviews"
  using assms by (simp add: handle_def)

lemma returned_handle:
  "returned (handle ext ghc rp linkURL opts pr)
     = map_option (\<lambda>(ctx, cause). FailedToGet ctx (org pr) (repo pr) (number pr) cause)
         (firstFailure (requiredReads ghc pr))"
  by (simp add: handle_def requiredReads_def failure_def failed_def fetchErr_def returned_decide
        split: sum.split)

lemma failed_handle:
  "returned (handle ext ghc rp linkURL opts pr) \<noteq> None \<Longrightarrow>
     requests (handle ext ghc rp linkURL opts pr) = []
     \<and> logged (handle ext ghc rp linkURL opts pr) = []"
  by (simp add: handle_def failed_def returned_decide split: sum.splits)

lemma firstFailure_None: "(firstFailure rs = None) = list_all (\<lambda>r. snd r = None) rs"
  by (induction rs rule: firstFailure.induct) simp_all

text \<open>
  C5. \<^verbatim>\<open>handle\<close> returns an error exactly when one of the six required reads fails:
  the error names the first read that failed and the organisation, repository and
  number of the pull request, and then no mutation has been issued. Whatever the
  history lookup and the four mutations answer, the returned value is the same, so
  their failures never make \<^verbatim>\<open>handle\<close> return an error.
\<close>

theorem handle_errors:
  "returned (handle ext ghc rp linkURL opts pr)
     = map_option (\<lambda>(ctx, cause). FailedToGet ctx (org pr) (repo pr) (number pr) cause)
         (firstFailure (requiredReads ghc pr))
   \<and> (returned (handle ext ghc rp linkURL opts pr) = None)
       = list_all (\<lambda>r. snd r = None) (requiredReads ghc pr)
   \<and> (returned (handle ext ghc rp linkURL opts pr) \<noteq> None \<longrightarrow>
        requests (handle ext ghc rp linkURL opts pr) = []
        \<and> logged (handle ext ghc rp linkURL opts pr) = [])
   \<and> returned (handle ext
        (ghc\<lparr>ListIssueEvents := history, DeleteComment := deleting, CreateComment := creating,
             AddLabel := adding, RemoveLabel := removing\<rparr>) rp linkURL opts pr)
       = returned (handle ext ghc rp linkURL opts pr)"
proof (intro conjI)
  show "returned (handle ext ghc rp linkURL opts pr)
     = map_option (\<lambda>(ctx, cause). FailedToGet ctx (org pr) (repo pr) (number pr) cause)
         (firstFailure (requiredReads ghc pr))"
    by (rule returned_handle)
  show "(returned (handle ext ghc rp linkURL opts pr) = None)
       = list_all (\<lambda>r. snd r = None) (requiredReads ghc pr)"
    by (simp add: returned_handle firstFailure_None)
  show "returned (handle ext ghc rp linkURL opts pr) \<noteq> None \<longrightarrow>
        requests (handle ext ghc rp linkURL opts pr) = []
        \<and> logged (handle ext ghc rp linkURL opts pr) = []"
    using failed_handle by blast
  show "returned (handle ext
        (ghc\<lparr>ListIssueEvents := history, DeleteComment := deleting, CreateComment := creating,
             AddLabel := adding, RemoveLabel := removing\<rparr>) rp linkURL opts pr)
       = returned (handle ext ghc rp linkURL opts pr)"
    by (simp add: returned_handle requiredReads_def)
qed

theorem handle_errors_witness:
  "returned (handle exExternals failingClient (\<lambda>f. None) [] (exOpts False) exPR)
     = Some (FailedToGet ''issue comments'' ''org'' ''repo'' 7 (Error ''timeout''))
   \<and> requests (handle exExternals failingClient (\<lambda>f. None) [] (exOpts False) exPR) = []
   \<and> returned (handle exExternals
        (exClient\<lparr>ListIssueEvents := (\<lambda>og rp n. Inl (Error ''down'')),
                  DeleteComment := (\<lambda>og rp i. Some (Error ''down'')),
                  CreateComment := (\<lambda>og rp n c. Some (Error ''down'')),
                  AddLabel := (\<lambda>og rp n l. Some (Error ''down'')),
                  RemoveLabel := (\<lambda>og rp n l. Some (Error ''down''))\<rparr>)
        (\<lambda>f. None) [] (exOpts False) exPR) = None"
  using handle_errors [where ext = exExternals and ghc = failingClient and rp = "\<lambda>f. None"
          and linkURL = "[]" and opts = "exOpts False" and pr = exPR]
    handle_errors [where ext = exExternals and ghc = exClient and rp = "\<lambda>f. None"
          and linkURL = "[]" and opts = "exOpts False" and pr = exPR
          and history = "\<lambda>og rp n. Inl (Error ''down'')"
          and deleting = "\<lambda>og rp i. Some (Error ''down'')"
          and creating = "\<lambda>og rp n c. Some (Error ''down'')"
          and adding = "\<lambda>og rp n l. Some (Error ''down'')"
          and removing = "\<lambda>og rp n l. Some (Error ''down'')"]
  by (simp add: requiredReads_def failure_def failingClient_def exClient_def exPR_def NewState_def)

section \<open>Label reconciliation\<close>

lemma label_commentRequests: "filter isLabelMutation (commentRequests pr ns msg) = []"
  by (cases msg) (auto simp add: commentRequests_def isLabelMutation_def filter_empty_conv)

lemma label_labelRequests:
  "filter isLabelMutation (labelRequests pr approved present) = labelRequests pr approved present"
  by (simp add: labelRequests_def isLabelMutation_def)

lemma label_decide:
  "filter isLabelMutation
     (requests (decide ext ghc rp linkURL opts pr changes issueLabels botName issueComments
        reviewComments reviews))
     = labelRequests pr
         (IsApproved ext
            (configure ext ghc rp opts pr (map Filename changes) (hasLabelApproved issueLabels)
               botName (approveCommentsOf botName opts issueComments reviewComments reviews)))
         (hasLabelApproved issueLabels)"
  by (simp add: decide_def Let_def label_commentRequests label_labelRequests)

lemma hasLabelApproved_member:
  "hasLabelApproved issueLabels = (labels_Approved \<in> set (map Name issueLabels))"
  by (induction issueLabels) (auto simp add: hasLabelApproved_def)

text \<open>
  C6. Every evaluation issues at most one label mutation. When the reads have
  succeeded, the label mutations are decided by the verdict and by whether the approved
  label was among the labels fetched: one add-label request when the verdict is
  approved and the label was absent, one remove-label request when the verdict is not
  approved and the label was present, and none otherwise.
\<close>

theorem label_reconciliation:
  "length (filter isLabelMutation (requests (handle ext ghc rp linkURL opts pr))) \<le> 1
   \<and> (\<forall>changes issueLabels botName issueComments reviewComments reviews verdict.
        GetPullRequestChanges ghc (org pr) (repo pr) (number pr) = Inr changes
        \<and> GetIssueLabels ghc (org pr) (repo pr) (number pr) = Inr issueLabels
        \<and> BotName ghc = Inr botName
        \<and> ListIssueComments ghc (org pr) (repo pr) (number pr) = Inr issueComments
        \<and> ListPullRequestComments ghc (org pr) (repo pr) (number pr) = Inr reviewComments
        \<and> ListReviews ghc (org pr) (repo pr) (number pr) = Inr reviews
        \<and> verdict = IsApproved ext
             (configure ext ghc rp opts pr (map Filename changes)
                (hasLabelApproved issueLabels) botName
                (approveCommentsOf botName opts issueComments reviewComments reviews))
        \<longrightarrow> filter isLabelMutation (requests (handle ext ghc rp linkURL opts pr))
             = (if verdict \<and> labels_Approved \<notin> set (map Name issueLabels)
                then [AddLabelReq (org pr) (repo pr) (number pr) labels_Approved]
                else if \<not> verdict \<and> labels_Approved \<in> set (map Name issueLabels)
                then [RemoveLabelReq (org pr) (repo pr) (number pr) labels_Approved]
                else []))"
proof (intro conjI allI impI)
  show "length (filter isLabelMutation (requests (handle ext ghc rp linkURL opts pr))) \<le> 1"
    by (simp add: handle_def failed_def label_decide labelRequests_def split: sum.split)
next
  fix changes issueLabels botName issueComments reviewComments reviews verdict
  assume reads: "GetPullRequestChanges ghc (org pr) (repo pr) (number pr) = Inr changes
        \<and> GetIssueLabels ghc (org pr) (repo pr) (number pr) = Inr issueLabels
        \<and> BotName ghc = Inr botName
        \<and> ListIssueComments ghc (org pr) (repo pr) (number pr) = Inr issueComments
        \<and> ListPullRequestComments ghc (org pr) (repo pr) (number pr) = Inr reviewComments
        \<and> ListReviews ghc (org pr) (repo pr) (number pr) = Inr reviews
        \<and> verdict = IsApproved ext
             (configure ext ghc rp opts pr (map Filename changes)
                (hasLabelApproved issueLabels) botName
                (approveCommentsOf botName opts issueComments reviewComments reviews))"
  then have "handle ext ghc rp linkURL opts pr
           = decide ext ghc rp linkURL opts pr changes issueLabels botName issueComments
               reviewComments reviews"
    by (simp add: handle_reads)
  with reads have "filter isLabelMutation (requests (handle ext ghc rp linkURL opts pr))
      = labelRequests pr verdict (hasLabelApproved issueLabels)"
    by (simp add: label_decide)
  then show "filter isLabelMutation (requests (handle ext ghc rp linkURL opts pr))
             = (if verdict \<and> labels_Approved \<notin> set (map Name issueLabels)
                then [AddLabelReq (org pr) (repo pr) (number pr) labels_Approved]
                else if \<not> verdict \<and> labels_Approved \<in> set (map Name issueLabels)
                then [RemoveLabelReq (org pr) (repo pr) (number pr) labels_Approved]
                else [])"
    unfolding hasLabelApproved_member by (simp add: labelRequests_def)
qed

theorem label_reconciliation_witness:
  "filter isLabelMutation
     (requests (handle (exExternals\<lparr>IsApproved := (\<lambda>ap. True)\<rparr>) exClient (\<lambda>f. None) []
        (exOpts False) exPR))
     = [AddLabelReq ''org'' ''repo'' 7 ''approved'']"
proof -
  have reads: "GetPullRequestChanges exClient (org exPR) (repo exPR) (number exPR) = Inr []
      \<and> GetIssueLabels exClient (org exPR) (repo exPR) (number exPR) = Inr []
      \<and> BotName exClient = Inr ''ci-bot''
      \<and> ListIssueComments exClient (org exPR) (repo exPR) (number exPR) = Inr []
      \<and> ListPullRequestComments exClient (org exPR) (repo exPR) (number exPR) = Inr []
      \<and> ListReviews exClient (org exPR) (repo exPR) (number exPR) = Inr []"
    by (simp add: exClient_def)
  have "filter isLabelMutation
     (requests (handle (exExternals\<lparr>IsApproved := (\<lambda>ap. True)\<rparr>) exClient (\<lambda>f. None) []
        (exOpts False) exPR))
     = (if True \<and> labels_Approved \<notin> set (map Name [])
        then [AddLabelReq (org exPR) (repo exPR) (number exPR) labels_Approved]
        else if \<not> True \<and> labels_Approved \<in> set (map Name [])
        then [RemoveLabelReq (org exPR) (repo exPR) (number exPR) labels_Approved]
        else [])"
    using reads
      label_reconciliation [where ext = "exExternals\<lparr>IsApproved := (\<lambda>ap. True)\<rparr>"
        and ghc = exClient and rp = "\<lambda>f. None" and opts = "exOpts False" and linkURL = "[]"
        and pr = exPR]
    by (auto simp del: set_map)
  then show ?thesis
    by (simp add: exPR_def NewState_def labels_Approved_def)
qed

section \<open>Human override\<close>

lemma frame_match: "addApproversMatch c a ap m = ap\<lparr>calls := calls (addApproversMatch c a ap m)\<rparr>"
  by (simp add: addApproversMatch_def Let_def AddApprover_def AddLGTMer_def
        AddAuthorSelfApprover_def RemoveApprover_def)

lemma frame_matches:
  "foldl (addApproversMatch c a) ap ms = ap\<lparr>calls := calls (foldl (addApproversMatch c a) ap ms)\<rparr>"
proof (induction ms arbitrary: ap)
  case Nil
  show ?case by simp
next
  case (Cons m ms)
  have "foldl (addApproversMatch c a) ap (m # ms)
      = (addApproversMatch c a ap m)\<lparr>calls := calls (foldl (addApproversMatch c a) ap (m # ms))\<rparr>"
    using Cons.IH [of "addApproversMatch c a ap m"] by simp
  also have "\<dots> = ap\<lparr>calls := calls (foldl (addApproversMatch c a) ap (m # ms))\<rparr>"
    by (subst frame_match) simp
  finally show ?case .
qed

lemma frame_comment:
  "addApproversComment a rv ap c = ap\<lparr>calls := calls (addApproversComment a rv ap c)\<rparr>"
proof -
  have "\<And>h. h = ap\<lparr>calls := calls h\<rparr> \<Longrightarrow>
      foldl (addApproversMatch c a) h (FindAllStringSubmatch (Body c))
        = ap\<lparr>calls := calls (foldl (addApproversMatch c a) h (FindAllStringSubmatch (Body c)))\<rparr>"
    by (metis (no_types, lifting) frame_matches Approvers.surjective Approvers.update_convs(5))
  then show ?thesis
    by (simp add: addApproversComment_def Let_def AddApprover_def RemoveApprover_def)
qed

lemma frame_addApprovers:
  "addApprovers ap cs a rv = ap\<lparr>calls := calls (addApprovers ap cs a rv)\<rparr>"
  unfolding addApprovers_def
proof (induction cs arbitrary: ap)
  case Nil
  show ?case by simp
next
  case (Cons c cs)
  have "foldl (addApproversComment a rv) ap (c # cs)
      = (addApproversComment a rv ap c)
          \<lparr>calls := calls (foldl (addApproversComment a rv) ap (c # cs))\<rparr>"
    using Cons.IH [of "addApproversComment a rv ap c"] by simp
  also have "\<dots> = ap\<lparr>calls := calls (foldl (addApproversComment a rv) ap (c # cs))\<rparr>"
    by (subst frame_comment) simp
  finally show ?case .
qed

lemma frame_assignees:
  "foldl (\<lambda>h user. AddAssignees h (Login user)) ap us
     = ap\<lparr>calls := calls (foldl (\<lambda>h user. AddAssignees h (Login user)) ap us)\<rparr>"
  by (induction us arbitrary: ap) (simp_all add: AddAssignees_def, metis (no_types, lifting) Approvers.surjective Approvers.update_convs(5))

lemma ManuallyApproved_configure:
  "ManuallyApproved (configure ext ghc rp opts pr fs hasLabel botName cs)
     = fst (findOut ghc (org pr) (repo pr) (number pr) botName hasLabel)"
proof -
  have a: "\<And>h us. ManuallyApproved (foldl (\<lambda>h user. AddAssignees h (Login user)) h us)
      = ManuallyApproved h"
    by (subst frame_assignees) simp
  have b: "\<And>h cs a rv. ManuallyApproved (addApprovers h cs a rv) = ManuallyApproved h"
    by (subst frame_addApprovers) simp
  have c: "\<And>h l r n. ManuallyApproved (AddAuthorSelfApprover h l r n) = ManuallyApproved h"
    by (simp add: AddAuthorSelfApprover_def)
  have d: "\<And>h l. ManuallyApproved (AddAssignees h l) = ManuallyApproved h"
    by (simp add: AddAssignees_def)
  show ?thesis
    by (simp add: configure_def Let_def a b c d)
qed

lemma lastAdded_foldl:
  "foldl (\<lambda>lastAdded event.
              if Event event \<noteq> IssueActionLabeled \<or> Name (EventLabel event) \<noteq> labels_Approved
              then lastAdded else event) acc events
     = (case mostRecentAdd events of None \<Rightarrow> acc | Some e \<Rightarrow> e)"
  by (induction events arbitrary: acc) (auto simp add: mostRecentAdd_def Let_def)

lemma lastAddedEvent_mostRecent:
  "lastAddedEvent events = (case mostRecentAdd events of None \<Rightarrow> zeroEvent | Some e \<Rightarrow> e)"
  unfolding lastAddedEvent_def by (rule lastAdded_foldl)

lemma findOut_value:
  "fst (findOut ghc og rp n botName hasLabel)
     = (hasLabel \<and> (\<exists>events e. ListIssueEvents ghc og rp n = Inr events
          \<and> mostRecentAdd events = Some e \<and> Login (Actor e) \<noteq> []
          \<and> Login (Actor e) \<noteq> botName \<and> \<not> isDeprecatedBot (Login (Actor e))))"
  by (auto simp add: findOut_def lastAddedEvent_mostRecent Let_def zeroEvent_def
        split: sum.splits option.splits)

lemma findOut_lookups: "snd (findOut ghc og rp n botName hasLabel) = (if hasLabel then 1 else 0)"
  by (simp add: findOut_def Let_def split: sum.split)

lemma humanAddedApproved_cached:
  "humanAddedApproved ghc og rp n botName hasLabel (Some v) = (v, Some v, 0)"
  by (simp add: humanAddedApproved_def)

lemma humanAddedApproved_fresh:
  "humanAddedApproved ghc og rp n botName hasLabel None
     = (fst (findOut ghc og rp n botName hasLabel),
        Some (fst (findOut ghc og rp n botName hasLabel)),
        snd (findOut ghc og rp n botName hasLabel))"
  by (simp add: humanAddedApproved_def split_beta)

lemma callRepeatedly_cached:
  "callRepeatedly k (humanAddedApproved ghc og rp n botName hasLabel) (Some v) = (replicate k v, 0)"
  by (induction k) (simp_all add: humanAddedApproved_cached)

lemma callRepeatedly_fresh:
  "callRepeatedly k (humanAddedApproved ghc og rp n botName hasLabel) None
     = (replicate k (fst (findOut ghc og rp n botName hasLabel)),
        if k = 0 \<or> \<not> hasLabel then 0 else 1)"
proof (cases k)
  case 0
  then show ?thesis by simp
next
  case (Suc j)
  then show ?thesis
    using findOut_lookups [of ghc og rp n botName hasLabel]
    by (simp add: humanAddedApproved_fresh callRepeatedly_cached)
qed

lemma findOut_ghclient:
  "fst (findOut (ghclient parseTime c) og rp n botName hasLabel) = False"
  by (simp add: findOut_def ghclient_def lastAddedEvent_def zeroEvent_def)

text \<open>
  C3. The override flag of the evaluation is set exactly when the approved label is
  present, the history lookup succeeds, and the most recent label-added event for the
  label names an actor (a login that is not empty) who is neither the bot nor a retired
  bot; so it is not set when the label is absent, the history is empty or unavailable,
  or the last adder is the bot or a predecessor. With the flag set the verdict of the
  spec is approved whatever the coverage computation says, and the label is left in
  place. The closure looks the history up at most once however often it is called, and
  every call returns the same value. Behind this repository's \<^verbatim>\<open>ghclient\<close>, whose
  history is always empty, the flag is never set.
\<close>

theorem human_override:
  "ManuallyApproved (configure ext ghc rp opts pr fs hasLabel botName cs)
     = (hasLabel \<and> (\<exists>events e. ListIssueEvents ghc (org pr) (repo pr) (number pr) = Inr events
          \<and> mostRecentAdd events = Some e \<and> Login (Actor e) \<noteq> []
          \<and> Login (Actor e) \<noteq> botName \<and> \<not> isDeprecatedBot (Login (Actor e))))
   \<and> (ManuallyApproved (configure ext ghc rp opts pr fs hasLabel botName cs) \<longrightarrow>
        IsApprovedBySpec coverage (configure ext ghc rp opts pr fs hasLabel botName cs)
        \<and> (IsApproved ext = IsApprovedBySpec coverage \<longrightarrow>
             labelRequests pr
               (IsApproved ext (configure ext ghc rp opts pr fs hasLabel botName cs)) hasLabel
             = []))
   \<and> callRepeatedly k
        (humanAddedApproved ghc (org pr) (repo pr) (number pr) botName hasLabel) None
       = (replicate k (ManuallyApproved (configure ext ghc rp opts pr fs hasLabel botName cs)),
          if k = 0 \<or> \<not> hasLabel then 0 else 1)
   \<and> \<not> ManuallyApproved (configure ext (ghclient parseTime c) rp opts pr fs hasLabel botName cs)"
proof (intro conjI)
  show "ManuallyApproved (configure ext ghc rp opts pr fs hasLabel botName cs)
     = (hasLabel \<and> (\<exists>events e. ListIssueEvents ghc (org pr) (repo pr) (number pr) = Inr events
          \<and> mostRecentAdd events = Some e \<and> Login (Actor e) \<noteq> []
          \<and> Login (Actor e) \<noteq> botName \<and> \<not> isDeprecatedBot (Login (Actor e))))"
    by (simp add: ManuallyApproved_configure findOut_value)
  show "ManuallyApproved (configure ext ghc rp opts pr fs hasLabel botName cs) \<longrightarrow>
        IsApprovedBySpec coverage (configure ext ghc rp opts pr fs hasLabel botName cs)
        \<and> (IsApproved ext = IsApprovedBySpec coverage \<longrightarrow>
             labelRequests pr
               (IsApproved ext (configure ext ghc rp opts pr fs hasLabel botName cs)) hasLabel
             = [])"
    by (simp add: ManuallyApproved_configure findOut_value IsApprovedBySpec_def labelRequests_def)
  show "callRepeatedly k
        (humanAddedApproved ghc (org pr) (repo pr) (number pr) botName hasLabel) None
       = (replicate k (ManuallyApproved (configure ext ghc rp opts pr fs hasLabel botName cs)),
          if k = 0 \<or> \<not> hasLabel then 0 else 1)"
    by (simp add: ManuallyApproved_configure callRepeatedly_fresh)
  show "\<not> ManuallyApproved
          (configure ext (ghclient parseTime c) rp opts pr fs hasLabel botName cs)"
    by (simp add: ManuallyApproved_configure findOut_ghclient)
qed

theorem human_override_witness:
  "ManuallyApproved (configure exExternals (historyClient [labelled ''ci-bot'', labelled ''carol''])
       (\<lambda>f. None) (exOpts True) exPR [''a.go''] True ''ci-bot'' [])
   \<and> IsApprovedBySpec (\<lambda>ap. False)
       (configure exExternals (historyClient [labelled ''ci-bot'', labelled ''carol''])
          (\<lambda>f. None) (exOpts True) exPR [''a.go''] True ''ci-bot'' [])
   \<and> labelRequests exPR
       (IsApprovedBySpec (\<lambda>ap. False)
          (configure (exExternals\<lparr>IsApproved := IsApprovedBySpec (\<lambda>ap. False)\<rparr>)
             (historyClient [labelled ''ci-bot'', labelled ''carol''])
             (\<lambda>f. None) (exOpts True) exPR [''a.go''] True ''ci-bot'' [])) True = []
   \<and> \<not> ManuallyApproved
         (configure exExternals (historyClient [labelled ''carol'', labelled ''ci-bot''])
            (\<lambda>f. None) (exOpts True) exPR [''a.go''] True ''ci-bot'' [])
   \<and> callRepeatedly 3
        (humanAddedApproved (historyClient [labelled ''ci-bot'', labelled ''carol''])
           ''org'' ''repo'' 7 ''ci-bot'' True) None
       = ([True, True, True], 1)"
proof -
  let ?byHuman = "historyClient [labelled ''ci-bot'', labelled ''carol'']"
  let ?byBot = "historyClient [labelled ''carol'', labelled ''ci-bot'']"
  let ?spec = "exExternals\<lparr>IsApproved := IsApprovedBySpec (\<lambda>ap. False)\<rparr>"
  note human = human_override [where ext = exExternals and ghc = ?byHuman and rp = "\<lambda>f. None"
      and opts = "exOpts True" and pr = exPR and fs = "[''a.go'']" and hasLabel = True
      and botName = "''ci-bot''" and cs = "[]" and coverage = "\<lambda>ap. False" and k = 3
      and parseTime = "\<lambda>t. 0" and c = "gitee exHosted"]
  note human' = human_override [where ext = ?spec and ghc = ?byHuman and rp = "\<lambda>f. None"
      and opts = "exOpts True" and pr = exPR and fs = "[''a.go'']" and hasLabel = True
      and botName = "''ci-bot''" and cs = "[]" and coverage = "\<lambda>ap. False" and k = 3
      and parseTime = "\<lambda>t. 0" and c = "gitee exHosted"]
  note robot = human_override [where ext = exExternals and ghc = ?byBot and rp = "\<lambda>f. None"
      and opts = "exOpts True" and pr = exPR and fs = "[''a.go'']" and hasLabel = True
      and botName = "''ci-bot''" and cs = "[]" and coverage = "\<lambda>ap. False" and k = 3
      and parseTime = "\<lambda>t. 0" and c = "gitee exHosted"]
  have carol: "\<exists>events e. ListIssueEvents ?byHuman (org exPR) (repo exPR) (number exPR) = Inr events
          \<and> mostRecentAdd events = Some e \<and> Login (Actor e) \<noteq> []
          \<and> Login (Actor e) \<noteq> ''ci-bot'' \<and> \<not> isDeprecatedBot (Login (Actor e))"
    by (simp add: historyClient_def mostRecentAdd_def labelled_def isDeprecatedBot_def
          deprecatedBotNames_def)
  have bot: "\<not> (\<exists>events e. ListIssueEvents ?byBot (org exPR) (repo exPR) (number exPR) = Inr events
          \<and> mostRecentAdd events = Some e \<and> Login (Actor e) \<noteq> []
          \<and> Login (Actor e) \<noteq> ''ci-bot'' \<and> \<not> isDeprecatedBot (Login (Actor e)))"
    by (simp add: historyClient_def mostRecentAdd_def labelled_def)
  have set1: "ManuallyApproved (configure exExternals ?byHuman (\<lambda>f. None) (exOpts True) exPR
      [''a.go''] True ''ci-bot'' [])"
    using human carol by blast
  have set2: "ManuallyApproved (configure ?spec ?byHuman (\<lambda>f. None) (exOpts True) exPR
      [''a.go''] True ''ci-bot'' [])"
    using human' carol by blast
  have verdict: "IsApprovedBySpec (\<lambda>ap. False)
       (configure exExternals ?byHuman (\<lambda>f. None) (exOpts True) exPR [''a.go''] True ''ci-bot'' [])"
    using human set1 by blast
  have same: "IsApproved ?spec = IsApprovedBySpec (\<lambda>ap. False)"
    by simp
  have "labelRequests exPR
       (IsApproved ?spec (configure ?spec ?byHuman (\<lambda>f. None) (exOpts True) exPR [''a.go'']
          True ''ci-bot'' [])) True = []"
    using human' set2 same by blast
  then have kept: "labelRequests exPR
       (IsApprovedBySpec (\<lambda>ap. False) (configure ?spec ?byHuman (\<lambda>f. None) (exOpts True) exPR
          [''a.go''] True ''ci-bot'' [])) True = []"
    by simp
  have unset: "\<not> ManuallyApproved (configure exExternals ?byBot (\<lambda>f. None) (exOpts True) exPR
      [''a.go''] True ''ci-bot'' [])"
    using robot bot by blast
  have "callRepeatedly 3
        (humanAddedApproved ?byHuman (org exPR) (repo exPR) (number exPR) ''ci-bot'' True) None
       = (replicate 3 True, 1)"
    using human set1 by simp
  then have once: "callRepeatedly 3
        (humanAddedApproved ?byHuman ''org'' ''repo'' 7 ''ci-bot'' True) None
       = ([True, True, True], 1)"
    by (simp add: exPR_def NewState_def numeral_3_eq_3)
  from set1 verdict kept unset once show ?thesis by blast
qed

section \<open>Running the evaluation twice\<close>

lemma configure_ghclient:
  "configure ext (ghclient parseTime c) rp opts pr fs hasLabel botName cs
     = configure ext (ghclient parseTime c') rp opts pr fs hasLabel' botName cs"
  by (simp add: configure_def findOut_ghclient)

text \<open>What one evaluation of a hosted pull request works with.\<close>

lemma evaluation_decide:
  "evaluation ext parseTime rp linkURL opts pr w
     = decide ext (ghclient parseTime (gitee w)) rp linkURL opts pr
         (transformPRChanges (files w)) (transformLabels (prLabels w)) (ub_Login (botUser w))
         (transformComments parseTime (prComments w)) [] []"
  by (simp add: evaluation_def handle_def ghclient_def gitee_def)

lemma approveCommentsOf_issue_only:
  "approveCommentsOf botName opts ics [] []
     = sort_key CreatedAt
         (filter (approvalMatcher botName (LgtmActsAsApprove opts) (ConsiderReviewState opts))
            (map commentFromIssueComment ics))"
  by (simp add: approveCommentsOf_def Let_def commentsFromReviewComments_def
        commentsFromIssueComments_def commentsFromReviews_def filterComments_def filter_sort)


lemma seen_comments:
  "commentsFromIssueComments (transformComments parseTime xs) = map (seen parseTime) xs"
  by (simp add: commentsFromIssueComments_def transformComments_def commentFromIssueComment_def
        seen_def transformUser_def)

lemma approveCommentsOf_hosted:
  "approveCommentsOf botName opts (transformComments parseTime xs) [] []
     = sort_key CreatedAt
         (map (seen parseTime)
            (filter (\<lambda>v. approvalMatcher botName (LgtmActsAsApprove opts)
                            (ConsiderReviewState opts) (seen parseTime v)) xs))"
proof -
  have "map commentFromIssueComment (transformComments parseTime xs) = map (seen parseTime) xs"
    using seen_comments [of parseTime xs] by (simp add: commentsFromIssueComments_def)
  then show ?thesis
    by (simp add: approveCommentsOf_issue_only filter_map comp_def)
qed

lemma matchers_apart:
  "notificationMatcher ext botName c \<Longrightarrow> \<not> approvalMatcher botName lg rv c"
  by (auto simp add: notificationMatcher_def approvalMatcher_def isApprovalCommand_def
        isApprovalState_def split: if_splits)

lemma Contains_self: "Contains m m"
  by (simp add: Contains_def)

lemma files_effects: "files (foldl (effect s) w rqs) = files w"
proof (induction rqs arbitrary: w)
  case Nil
  show ?case by simp
next
  case (Cons rq rqs)
  show ?case using Cons.IH [of "effect s w rq"] by (cases rq) simp_all
qed

lemma botUser_effects: "botUser (foldl (effect s) w rqs) = botUser w"
proof (induction rqs arbitrary: w)
  case Nil
  show ?case by simp
next
  case (Cons rq rqs)
  show ?case using Cons.IH [of "effect s w rq"] by (cases rq) simp_all
qed

lemma labels_commentRequests:
  "prLabels (foldl (effect s) w (commentRequests pr ns msg)) = prLabels w"
proof -
  have del: "\<And>w. prLabels (foldl (effect s) w
        (map (\<lambda>notif. DeleteCommentReq (org pr) (repo pr) (ID notif)) ns)) = prLabels w"
    by (induction ns) simp_all
  show ?thesis
    by (cases msg) (simp_all add: commentRequests_def del)
qed

lemma comments_labelRequests:
  "prComments (foldl (effect s) w (labelRequests pr approved present)) = prComments w"
  by (simp add: labelRequests_def)

lemma comments_deletes:
  "prComments (foldl (effect s) w (map (\<lambda>notif. DeleteCommentReq og rp (ID notif)) ns))
     = filter (\<lambda>c. pc_Id c \<notin> set (map (\<lambda>notif. word_of_int (ID notif)) ns)) (prComments w)"
proof (induction ns arbitrary: w)
  case Nil
  show ?case by simp
next
  case (Cons n ns)
  show ?case
    using Cons.IH [of "effect s w (DeleteCommentReq og rp (ID n))"]
    by (simp add: conj_commute)
qed

lemma botUser_deletes:
  "botUser (foldl (effect s) w (map (\<lambda>notif. DeleteCommentReq og rp (ID notif)) ns)) = botUser w"
  by (rule botUser_effects)

lemma comments_commentRequests:
  "prComments (foldl (effect s) w (commentRequests pr ns msg))
     = (case msg of
          None \<Rightarrow> prComments w
        | Some m \<Rightarrow>
            filter (\<lambda>c. pc_Id c \<notin> set (map (\<lambda>notif. word_of_int (ID notif)) ns)) (prComments w)
            @ [\<lparr>pc_Id = newId s, pc_Body = m, pc_User = Some (botUser w),
                pc_HtmlUrl = newHtmlUrl s, pc_CreatedAt = newCreatedAt s\<rparr>])"
  by (cases msg) (simp_all add: commentRequests_def comments_deletes botUser_deletes)

lemma present_after_labelRequests:
  "hasLabelApproved (transformLabels (prLabels (foldl (effect s) w
      (labelRequests pr approved (hasLabelApproved (transformLabels (prLabels w)))))))
     = approved"
  by (auto simp add: labelRequests_def hasLabelApproved_def transformLabels_def list_ex_iff)


lemma approvals_survive:
  assumes "distinct (map pc_Id xs)"
  shows "filter (\<lambda>v. approvalMatcher botName lg rv (seen parseTime v))
           (filter (\<lambda>c. pc_Id c \<notin> set (map (\<lambda>notif. word_of_int (ID notif))
                       (filter (notificationMatcher ext botName) (map (seen parseTime) xs)))) xs)
         = filter (\<lambda>v. approvalMatcher botName lg rv (seen parseTime v)) xs"
proof -
  have inj: "inj_on pc_Id (set xs)"
    using assms by (simp add: distinct_map)
  have keep: "pc_Id c \<notin> set (map (\<lambda>notif. word_of_int (ID notif))
                       (filter (notificationMatcher ext botName) (map (seen parseTime) xs)))"
    if c: "c \<in> set xs" and ok: "approvalMatcher botName lg rv (seen parseTime c)" for c
  proof
    assume "pc_Id c \<in> set (map (\<lambda>notif. word_of_int (ID notif))
                       (filter (notificationMatcher ext botName) (map (seen parseTime) xs)))"
    then obtain c0 where c0: "c0 \<in> set xs"
      and n: "notificationMatcher ext botName (seen parseTime c0)"
      and i: "pc_Id c = word_of_int (ID (seen parseTime c0))"
      by auto
    from i have "pc_Id c = pc_Id c0" by (simp add: seen_def)
    with inj c c0 have "c = c0" by (auto dest: inj_onD)
    with n ok show False using matchers_apart by blast
  qed
  show ?thesis
    unfolding filter_filter
    by (rule filter_cong) (auto dest: keep)
qed

lemma updateNotification_Some:
  "updateNotification ext linkURL og rp br commandURL latest ap = Some m \<Longrightarrow>
     GetMessage ext ap linkURL og rp br commandURL = Some m"
  by (auto simp add: updateNotification_def split: option.splits if_splits)

lemma updateNotification_posted:
  "GetMessage ext ap linkURL og rp br commandURL = Some m \<Longrightarrow> Body latest = m \<Longrightarrow>
     updateNotification ext linkURL og rp br commandURL (Some latest) ap = None"
  by (simp add: updateNotification_def Contains_self)

lemma requests_decide:
  "requests (decide ext ghc rp linkURL opts pr changes issueLabels botName issueComments
      reviewComments reviews)
     = (let approversHandler = configure ext ghc rp opts pr (map Filename changes)
              (hasLabelApproved issueLabels) botName
              (approveCommentsOf botName opts issueComments reviewComments reviews);
            notifications = filterComments (commentsFromIssueComments issueComments)
                              (notificationMatcher ext botName)
        in commentRequests pr notifications
             (updateNotification ext linkURL (org pr) (repo pr) (branch pr)
                (GetBotCommandLink ext (htmlURL pr)) (getLast notifications) approversHandler)
           @ labelRequests pr (IsApproved ext approversHandler) (hasLabelApproved issueLabels))"
  by (simp add: decide_def Let_def)


text \<open>
  C4. On a hosted pull request whose comments have distinct ids, and with a renderer
  whose messages begin with the marker, the evaluation that runs after the mutations of
  a first evaluation have taken effect, with nothing else changed, issues no request
  at all: no comment is created or deleted and no label is added or removed. (The
  proof shows why: the message it renders is contained in the comment the first run
  posted, or in the one that made the first run stay silent, and the label it finds
  equals the verdict.)
\<close>

theorem second_run_is_quiet:
  assumes marked: "rendersMarked ext"
    and ids: "distinct (map pc_Id (prComments w))"
  shows "requests (evaluation ext parseTime rp linkURL opts pr
           (afterwards ext parseTime rp linkURL opts pr s w)) = []"
proof -
  define botName where "botName = ub_Login (botUser w)"
  define H where "H = hasLabelApproved (transformLabels (prLabels w))"
  define fs where "fs = map Filename (transformPRChanges (files w))"
  define AC where
    "AC = approveCommentsOf botName opts (transformComments parseTime (prComments w)) [] []"
  define AP where "AP = configure ext (ghclient parseTime (gitee w)) rp opts pr fs H botName AC"
  define N where
    "N = filter (notificationMatcher ext botName) (map (seen parseTime) (prComments w))"
  define msg where
    "msg = updateNotification ext linkURL (org pr) (repo pr) (branch pr)
             (GetBotCommandLink ext (htmlURL pr)) (getLast N) AP"
  define V where "V = IsApproved ext AP"
  define w1 where "w1 = foldl (effect s) w (commentRequests pr N msg)"
  define w2 where "w2 = foldl (effect s) w1 (labelRequests pr V H)"
  define fresh where
    "fresh = (\<lambda>m. \<lparr>pc_Id = newId s, pc_Body = m, pc_User = Some (botUser w),
                    pc_HtmlUrl = newHtmlUrl s, pc_CreatedAt = newCreatedAt s\<rparr>)"
  define kept where
    "kept = filter (\<lambda>c. pc_Id c \<notin> set (map (\<lambda>notif. word_of_int (ID notif)) N)) (prComments w)"
  have first: "requests (evaluation ext parseTime rp linkURL opts pr w)
      = commentRequests pr N msg @ labelRequests pr V H"
    by (simp add: evaluation_decide requests_decide Let_def seen_comments filterComments_def
          botName_def H_def fs_def AC_def AP_def N_def msg_def V_def)
  have after: "afterwards ext parseTime rp linkURL opts pr s w = w2"
    by (simp add: afterwards_def first w2_def w1_def)
  have files2: "files w2 = files w"
    by (simp add: w2_def w1_def files_effects)
  have bot2: "botUser w2 = botUser w"
    by (simp add: w2_def w1_def botUser_effects)
  have labels1: "prLabels w1 = prLabels w"
    by (simp add: w1_def labels_commentRequests)
  have present2: "hasLabelApproved (transformLabels (prLabels w2)) = V"
    using present_after_labelRequests [of s w1 pr V]
    by (simp add: w2_def H_def labels1)
  have comments2: "prComments w2 = (case msg of None \<Rightarrow> prComments w | Some m \<Rightarrow> kept @ [fresh m])"
    by (cases msg)
      (simp_all add: w2_def w1_def comments_labelRequests comments_commentRequests kept_def
         fresh_def)
  have fresh_author: "\<And>m. Author (seen parseTime (fresh m)) = botName"
    by (simp add: seen_def fresh_def GetLogin_def botName_def)
  have fresh_body: "\<And>m. Body (seen parseTime (fresh m)) = m"
    by (simp add: seen_def fresh_def)
  have fresh_no_approval:
    "\<And>m. \<not> approvalMatcher botName (LgtmActsAsApprove opts) (ConsiderReviewState opts)
             (seen parseTime (fresh m))"
    by (simp add: approvalMatcher_def isApprovalCommand_def isApprovalState_def fresh_author)
  have approve2:
    "approveCommentsOf botName opts (transformComments parseTime (prComments w2)) [] [] = AC"
  proof (cases msg)
    case None
    then show ?thesis by (simp add: comments2 AC_def)
  next
    case (Some m)
    have "filter (\<lambda>v. approvalMatcher botName (LgtmActsAsApprove opts) (ConsiderReviewState opts)
                    (seen parseTime v)) kept
        = filter (\<lambda>v. approvalMatcher botName (LgtmActsAsApprove opts) (ConsiderReviewState opts)
                    (seen parseTime v)) (prComments w)"
      unfolding kept_def N_def by (rule approvals_survive [OF ids])
    then show ?thesis
      using Some fresh_no_approval
      by (simp add: comments2 AC_def approveCommentsOf_hosted)
  qed
  have handler2:
    "\<And>present. configure ext (ghclient parseTime (gitee w2)) rp opts pr fs present botName AC = AP"
    unfolding AP_def by (rule configure_ghclient)
  define N2 where
    "N2 = filter (notificationMatcher ext botName) (map (seen parseTime) (prComments w2))"
  have quiet: "updateNotification ext linkURL (org pr) (repo pr) (branch pr)
             (GetBotCommandLink ext (htmlURL pr)) (getLast N2) AP = None"
  proof (cases msg)
    case None
    then have "N2 = N" by (simp add: N2_def N_def comments2)
    with None show ?thesis by (simp add: msg_def)
  next
    case (Some m)
    then have rendered: "GetMessage ext AP linkURL (org pr) (repo pr) (branch pr)
        (GetBotCommandLink ext (htmlURL pr)) = Some m"
      unfolding msg_def by (rule updateNotification_Some)
    with marked have "HasPrefixFold m (''['' @ ApprovalNotificationName ext @ '']'')"
      unfolding rendersMarked_def by blast
    then have "notificationMatcher ext botName (seen parseTime (fresh m))"
      by (simp add: notificationMatcher_def fresh_author fresh_body)
    then have "getLast N2 = Some (seen parseTime (fresh m))"
      by (simp add: N2_def comments2 Some getLast_def)
    then show ?thesis
      using rendered by (simp add: updateNotification_posted fresh_body)
  qed
  have "requests (evaluation ext parseTime rp linkURL opts pr w2)
      = commentRequests pr N2 None @ labelRequests pr V V"
    using quiet
    by (simp add: evaluation_decide requests_decide Let_def seen_comments filterComments_def
          files2 bot2 present2 approve2 handler2 botName_def [symmetric] fs_def [symmetric]
          N2_def V_def)
  then show ?thesis
    by (simp add: after commentRequests_def labelRequests_def)
qed

theorem second_run_is_quiet_witness:
  "requests (evaluation exRenderer (\<lambda>t. 0) (\<lambda>f. None) getGiteeOption (exOpts True) exPR exHosted)
     = [DeleteCommentReq ''org'' ''repo'' 1,
        CreateCommentReq ''org'' ''repo'' 7 ''[APPROVALNOTIFIER] This PR is APPROVED'',
        AddLabelReq ''org'' ''repo'' 7 ''approved'']
   \<and> requests (evaluation exRenderer (\<lambda>t. 0) (\<lambda>f. None) getGiteeOption (exOpts True) exPR
        (afterwards exRenderer (\<lambda>t. 0) (\<lambda>f. None) getGiteeOption (exOpts True) exPR exStamp
           exHosted)) = []"
proof -
  have marked: "rendersMarked exRenderer"
    by (simp add: rendersMarked_def exRenderer_def exExternals_def HasPrefixFold_def ToLower_def
          toLowerChar_def)
  have ids: "distinct (map pc_Id (prComments exHosted))"
    by (simp add: exHosted_def)
  have first: "requests (evaluation exRenderer (\<lambda>t. 0) (\<lambda>f. None) getGiteeOption (exOpts True)
        exPR exHosted)
     = [DeleteCommentReq ''org'' ''repo'' 1,
        CreateCommentReq ''org'' ''repo'' 7 ''[APPROVALNOTIFIER] This PR is APPROVED'',
        AddLabelReq ''org'' ''repo'' 7 ''approved'']"
    by code_simp
  show ?thesis
    using first second_run_is_quiet [OF marked ids, of "\<lambda>t. 0" "\<lambda>f. None" getGiteeOption
        "exOpts True" exPR exStamp]
    by simp
qed

end
